theory Spec2Isabelle
  imports
    Main
    "HOL-Library.Char_ord"
    "HOL-Library.List_Lexorder"
    "HOL-Library.Multiset"
    "HOL-Library.Sublist"
begin

section \<open>The anagram script (SearchAnagramsFromDictionary.py)\<close>

text \<open>
  The script is a module body without functions: a fixed word list, a dict comprehension,
  one loop that fills a second dict, and prints. The words are ASCII, so a word is a
  \<^typ>\<open>string\<close>; \<open>sorted\<close> orders characters by code point, which is the order of
  \<^typ>\<open>char\<close>. A Python dict keeps its keys in insertion order, and the script iterates
  over \<open>items()\<close> and prints in that order, so a dict is an association list with distinct
  keys in insertion order.
\<close>

definition mDictionary :: "string list" where
  "mDictionary =
    [''act'', ''ant'', ''art'', ''bat'', ''bet'', ''boss'', ''cat'',
     ''cap'', ''cop'', ''dear'', ''dog'', ''dip'',
     ''ear'', ''end'', ''eel'', ''fad'', ''fat'', ''fog'', ''gap'', ''god'',
     ''hat'', ''hit'', ''hot'', ''ink'', ''irk'',
     ''jot'', ''jab'', ''lap'', ''lip'', ''lot'', ''man'', ''nan'', ''nat'',
     ''net'', ''pat'', ''pet'', ''tap'', ''tar'', ''ten'',
     ''rat'', ''woo'', ''yoo'', ''zoo'']"

text \<open>\<^verbatim>\<open>''.join(sorted(x))\<close>: the characters of \<open>x\<close> in ascending order.\<close>

definition signature :: "string \<Rightarrow> string" where
  "signature x = sort x"

text \<open>\<^verbatim>\<open>d[k] = v\<close>: an existing key keeps its place and takes the new value, a new key
  goes to the end.\<close>

fun dict_set :: "('k \<times> 'v) list \<Rightarrow> 'k \<Rightarrow> 'v \<Rightarrow> ('k \<times> 'v) list" where
  "dict_set [] k v = [(k, v)]"
| "dict_set ((k', v') # d) k v =
     (if k' = k then (k', v) # d else (k', v') # dict_set d k v)"

text \<open>\<^verbatim>\<open>{x: ''.join(sorted(x)) for x in words}\<close>, the comprehension that builds \<open>Pairs\<close>.\<close>

fun pairs_loop :: "string list \<Rightarrow> (string \<times> string) list \<Rightarrow> (string \<times> string) list" where
  "pairs_loop [] acc = acc"
| "pairs_loop (x # xs) acc = pairs_loop xs (dict_set acc x (signature x))"

definition Pairs :: "(string \<times> string) list" where
  "Pairs = pairs_loop mDictionary []"

text \<open>\<^verbatim>\<open>d.setdefault(v, []).append(k)\<close>: the list stored under \<open>v\<close> (a new empty one when
  \<open>v\<close> is not a key yet) gets \<open>k\<close> at its end.\<close>

definition setdefault_append ::
  "(string \<times> string list) list \<Rightarrow> string \<Rightarrow> string \<Rightarrow> (string \<times> string list) list" where
  "setdefault_append d v k =
     (case map_of d v of
        None \<Rightarrow> dict_set d v [k]
      | Some ws \<Rightarrow> dict_set d v (ws @ [k]))"

text \<open>The loop \<^verbatim>\<open>for k, v in items: if v in words: Anagrams.setdefault(v, []).append(k)\<close>.\<close>

fun anagrams_loop ::
  "(string \<times> string) list \<Rightarrow> string list \<Rightarrow> (string \<times> string list) list
     \<Rightarrow> (string \<times> string list) list" where
  "anagrams_loop [] words acc = acc"
| "anagrams_loop ((k, v) # items) words acc =
     anagrams_loop items words (if v \<in> set words then setdefault_append acc v k else acc)"

definition Anagrams :: "(string \<times> string list) list" where
  "Anagrams = anagrams_loop Pairs mDictionary []"

subsection \<open>What the script prints\<close>

text \<open>
  \<^verbatim>\<open>print(k, v)\<close> writes \<open>str(k)\<close>, a blank and \<open>str(v)\<close>. The \<open>str\<close> of a list is the
  \<open>repr\<close> of its elements between brackets, separated by a comma and a blank; the \<open>repr\<close>
  of a string of lower-case letters (every word of the list is one) is the string between
  single quotes. \<open>join\<close> is \<^verbatim>\<open>sep.join(xs)\<close>.
\<close>

definition print2 :: "string \<Rightarrow> string \<Rightarrow> string" where
  "print2 a b = a @ '' '' @ b"

definition repr_str :: "string \<Rightarrow> string" where
  "repr_str s = [CHR 0x27] @ s @ [CHR 0x27]"

fun join :: "'a list \<Rightarrow> 'a list list \<Rightarrow> 'a list" where
  "join sep [] = []"
| "join sep [x] = x"
| "join sep (x # y # ys) = x @ sep @ join sep (y # ys)"

definition str_list :: "string list \<Rightarrow> string" where
  "str_list ws = ''['' @ join '', '' (map repr_str ws) @ '']''"

definition label_pairs :: string where
  \<open>label_pairs = ''----------Print Items In Dictionary "Pairs":---------------------''\<close>

definition label_find :: string where
  \<open>label_find = ''----------Find Keys With Same Values ---------------------''\<close>

definition label_anagrams :: string where
  \<open>label_anagrams = ''----------Print "Annagrams":---------------------''\<close>

text \<open>
  The exceptions that the modelled statements of the three scripts raise; \<open>OtherError\<close>
  stands for any exception that is not one of the others. A run of a script ends in one
  of three ways: the module body (or \<open>main\<close>) runs to its end, \<^verbatim>\<open>sys.exit(n)\<close> raises
  \<open>SystemExit\<close>, or another exception reaches the top level and the interpreter prints a
  traceback. The interpreter's exit status is 0, \<open>n\<close> and 1.
\<close>

datatype exn =
    FileNotFoundError
  | PermissionError
  | UnicodeDecodeError
  | UnicodeEncodeError
  | IndexError
  | ImportError
  | OtherError

datatype outcome = Completed | SystemExit int | Uncaught exn

fun exit_status :: "outcome \<Rightarrow> int" where
  "exit_status Completed = 0"
| "exit_status (SystemExit n) = n"
| "exit_status (Uncaught e) = 1"

text \<open>
  The whole script: the lines it writes to standard output, in order, and how it ends. It
  reads no argument and no file (it imports nothing), so a run is a constant. The second
  label is printed before the grouping loop, which prints nothing, so the third label
  follows it directly. No statement of the script raises, and it never calls \<open>sys.exit\<close>.
\<close>

record run =
  stdout :: "string list"
  ending :: outcome

definition anagram_script :: run where
  "anagram_script =
     \<lparr>stdout =
        [label_pairs]
        @ map (\<lambda>(k, v). print2 k v) Pairs
        @ [label_find]
        @ [label_anagrams]
        @ map (\<lambda>(k, v). print2 k (str_list v)) Anagrams,
      ending = Completed\<rparr>"

subsection \<open>Notions used to state the properties\<close>

text \<open>Two words are in the same group list when some value of the dict holds both.\<close>

definition same_group :: "(string \<times> string list) list \<Rightarrow> string \<Rightarrow> string \<Rightarrow> bool" where
  "same_group d w1 w2 = list_ex (\<lambda>(g, ws). w1 \<in> set ws \<and> w2 \<in> set ws) d"

text \<open>
  A run of the comprehension, with \<open>sorted\<close> taken by its contract alone (it returns the
  characters of its argument in ascending order) rather than by one sorting algorithm.
\<close>

inductive pairs_run ::
  "string list \<Rightarrow> (string \<times> string) list \<Rightarrow> (string \<times> string) list \<Rightarrow> bool" where
  pairs_run_done: "pairs_run [] acc acc"
| pairs_run_step:
    "sorted s \<Longrightarrow> mset s = mset x \<Longrightarrow> pairs_run xs (dict_set acc x s) P \<Longrightarrow>
     pairs_run (x # xs) acc P"

text \<open>
  The labelled sections of an output: a label line is a line that starts with the ten
  dashes of the script's three labels, and a section is a label line with the lines that
  follow it up to the next label line.
\<close>

definition is_label :: "string \<Rightarrow> bool" where
  "is_label l = (take 10 l = ''----------'')"

fun sections :: "string list \<Rightarrow> (string \<times> string list) list" where
  "sections [] = []"
| "sections (l # ls) =
     (if is_label l then (l, takeWhile (\<lambda>x. \<not> is_label x) ls) # sections ls else sections ls)"

section \<open>The documentation updater (scripts/update_documentation.py)\<close>

subsection \<open>Strings, the Python runtime, the files\<close>

text \<open>
  The README may hold any text, both section markers hold characters beyond ASCII, and a
  file name may hold a lone surrogate (Python decodes the bytes of a name that is not
  UTF-8 to surrogates), so a Python \<open>str\<close> is modelled as what it is: a list of code
  points. \<open>str\<close> turns an ASCII literal into one.
\<close>

type_synonym ustring = "nat list"

definition str :: "string \<Rightarrow> ustring" where
  "str s = map of_char s"

text \<open>
  What the script takes from outside its own text, as parameters:
  \<^item> \<open>isalnum\<close>, \<open>lower\<close>, \<open>upper\<close>: Python's \<open>str.isalnum\<close> (read for code points from
    128 on only), \<open>str.lower\<close> and \<open>str.upper\<close>, which follow the Unicode tables of the
    interpreter;
  \<^item> \<open>linesep\<close>: \<open>os.linesep\<close>, the line separator of the platform;
  \<^item> \<open>extract_file_description\<close>: the description and the key items that the function of
    this name extracts from a source file with regular expressions. It catches every
    exception (its warning on \<open>stderr\<close> is not recorded) and returns a pair for every
    file; the order of the names in a key item is the iteration order of a Python set. No
    property below depends on what it returns, so it is a function of the file name, fixed
    for a run;
  \<^item> \<open>stdout_raises\<close>: the exception that printing a report to \<open>sys.stdout\<close> raises, if
    any. Most lines the script prints hold an emoji, and some a file name: \<open>print\<close> raises
    \<open>UnicodeEncodeError\<close> where the encoding of the stream lacks a character (a legacy code
    page, a lone surrogate in a name under UTF-8).
\<close>

text \<open>
  What the script prints to standard output, as reports; a report stands for consecutive
  \<open>print\<close> statements with nothing but the choice of the text between them, and counts
  as printed when all its lines are:
  \<^item> \<open>Banner\<close>: the title of \<open>main\<close> (lines 220 to 222);
  \<^item> \<open>NewFiles new_files\<close>: the number and the names of the new files, or that there is
    none (lines 236 to 242);
  \<^item> \<open>Updating\<close>: line 245;
  \<^item> \<open>ReadmeWritten\<close>: line 146, in \<open>update_readme\<close>;
  \<^item> \<open>UpdateSucceeded\<close>, \<open>UpdateFailed\<close>: lines 247 and 249;
  \<^item> \<open>GeneratingTemplate\<close>: line 254;
  \<^item> \<open>TemplateSaved template\<close>: the template and what to do with it (lines 261 to 266);
  \<^item> \<open>Summary n new_files\<close>: the summary, with the number \<open>n\<close> of source files (lines
    269 to 284).
\<close>

datatype report =
    Banner
  | NewFiles "ustring list"
  | Updating
  | ReadmeWritten
  | UpdateSucceeded
  | UpdateFailed
  | GeneratingTemplate
  | TemplateSaved ustring
  | Summary nat "ustring list"

record deps =
  isalnum :: "nat \<Rightarrow> bool"
  lower :: "ustring \<Rightarrow> ustring"
  upper :: "ustring \<Rightarrow> ustring"
  linesep :: ustring
  extract_file_description :: "ustring \<Rightarrow> ustring \<times> ustring list"
  stdout_raises :: "report \<Rightarrow> exn option"

text \<open>
  The messages written to \<open>sys.stderr\<close>: one constructor per
  \<open>print(..., file=sys.stderr)\<close> of the script, with the exception it formats. Python
  opens \<open>sys.stderr\<close> with the error handler \<open>backslashreplace\<close>, which encodes every
  text: these prints raise no \<open>UnicodeEncodeError\<close>.
\<close>

datatype message =
    SrcDirNotFound
  | ReadmeNotFound
  | MarkersNotFound
  | UpdateError exn
  | CheckWarning exn

text \<open>
  A file holds bytes. \<open>Text t\<close> is a file whose bytes are the UTF-8 encoding \<open>utf8 t\<close> of
  the text \<open>t\<close> (with its line ends as they stand in the file; \<open>t\<close> holds no
  surrogate, as only such a text has an encoding and is ever written), \<open>Undecodable\<close> a
  file whose bytes are not UTF-8. A file may be opened for reading when \<open>readable\<close> and
  for writing when \<open>writable\<close>.
\<close>

datatype stored = Text ustring | Undecodable

record textfile =
  stored :: stored
  readable :: bool
  writable :: bool



definition encodable :: "ustring \<Rightarrow> bool" where
  "encodable s = list_all (\<lambda>c. c < 0xD800 \<or> (0xDFFF < c \<and> c < 0x110000)) s"

text \<open>
  The script opens its files in text mode without \<open>newline=\<close>. On reading, a carriage
  return with its line feed, and a carriage return alone, become one line feed; on
  writing, every line feed becomes \<open>os.linesep\<close>.
\<close>

fun universal_newlines :: "ustring \<Rightarrow> ustring" where
  "universal_newlines [] = []"
| "universal_newlines [c] = [if c = 13 then 10 else c]"
| "universal_newlines (c # c' # cs) =
     (if c = 13 \<and> c' = 10 then 10 # universal_newlines cs
      else if c = 13 then 10 # universal_newlines (c' # cs)
      else c # universal_newlines (c' # cs))"

definition write_newlines :: "deps \<Rightarrow> ustring \<Rightarrow> ustring" where
  "write_newlines d s = concat (map (\<lambda>c. if c = 10 then linesep d else [c]) s)"

text \<open>
  \<^verbatim>\<open>with open(path, 'r', encoding='utf-8') as f: content = f.read()\<close>: the text, or the
  exception raised.
\<close>

definition read_text :: "textfile option \<Rightarrow> exn + ustring" where
  "read_text fo =
     (case fo of
        None \<Rightarrow> Inl FileNotFoundError
      | Some f \<Rightarrow>
          if \<not> readable f then Inl PermissionError
          else (case stored f of
                  Undecodable \<Rightarrow> Inl UnicodeDecodeError
                | Text t \<Rightarrow> Inr (universal_newlines t)))"

text \<open>
  \<^verbatim>\<open>with open(path, 'w', encoding='utf-8') as f: f.write(s)\<close>: the exception raised, if
  any, and the file afterwards. \<open>open\<close> creates a missing file where the directory allows
  it (\<open>may_create\<close>) and empties an existing one; \<open>f.write\<close> encodes \<open>s\<close> before it writes
  anything, so after a \<open>UnicodeEncodeError\<close> the file is left empty.
\<close>

definition write_text :: "deps \<Rightarrow> bool \<Rightarrow> textfile option \<Rightarrow> ustring \<Rightarrow> exn option \<times> textfile option" where
  "write_text d may_create fo s =
     (case fo of
        None \<Rightarrow>
          if \<not> may_create then (Some PermissionError, None)
          else if \<not> encodable s
          then (Some UnicodeEncodeError,
                Some \<lparr>stored = Text [], readable = True, writable = True\<rparr>)
          else (None,
                Some \<lparr>stored = Text (write_newlines d s), readable = True, writable = True\<rparr>)
      | Some f \<Rightarrow>
          if \<not> writable f then (Some PermissionError, Some f)
          else if \<not> encodable s then (Some UnicodeEncodeError, Some (f\<lparr>stored := Text []\<rparr>))
          else (None, Some (f\<lparr>stored := Text (write_newlines d s)\<rparr>)))"

text \<open>
  The files the script touches. \<open>src_dir\<close> is the listing of the directory \<open>src\<close> (the
  names of its entries, in the order the operating system lists them; \<open>None\<close> when it does
  not exist), \<open>readme\<close> is \<open>README.md\<close> and \<open>template\<close> is \<open>INDEX_UPDATE_TEMPLATE.txt\<close>
  (\<open>None\<close> when the file does not exist), \<open>root_writable\<close> says whether a file may be created
  in the project directory; \<open>reports\<close> and \<open>stderr\<close> hold what has been printed to
  \<open>sys.stdout\<close> and to \<open>sys.stderr\<close>.
\<close>

record world =
  src_dir :: "ustring list option"
  readme :: "textfile option"
  template :: "textfile option"
  root_writable :: bool
  reports :: "report list"
  stderr :: "message list"

text \<open>\<open>print\<close> to \<open>sys.stdout\<close>: the exception, or the world with the report printed.\<close>

definition print_stdout :: "deps \<Rightarrow> report \<Rightarrow> world \<Rightarrow> exn + world" where
  "print_stdout d r w =
     (case stdout_raises d r of
        Some e \<Rightarrow> Inl e
      | None \<Rightarrow> Inr (w\<lparr>reports := reports w @ [r]\<rparr>))"

subsection \<open>get_all_source_files\<close>

text \<open>
  \<^verbatim>\<open>src_dir.glob('*.cpp')\<close> yields the entries whose name ends with \<open>.cpp\<close> (nothing for
  a missing directory; names are compared as on a case-sensitive file system); the two
  results are concatenated and sorted by the lower-cased name with Python's stable sort.
  The function returns pairs of a name and its path \<open>src_dir / name\<close>; the model keeps the
  name.
\<close>

definition endswith :: "ustring \<Rightarrow> ustring \<Rightarrow> bool" where
  "endswith s e = (length e \<le> length s \<and> drop (length s - length e) s = e)"

definition glob :: "world \<Rightarrow> ustring \<Rightarrow> ustring list" where
  "glob w ext = (case src_dir w of None \<Rightarrow> [] | Some names \<Rightarrow> filter (\<lambda>n. endswith n ext) names)"

definition get_all_source_files :: "deps \<Rightarrow> world \<Rightarrow> ustring list" where
  "get_all_source_files d w = sort_key (lower d) (glob w (str ''.cpp'') @ glob w (str ''.cppm''))"

subsection \<open>generate_alphabetical_section\<close>

text \<open>\<open>str(n)\<close> of a natural number: its decimal digits.\<close>

fun str_nat :: "nat \<Rightarrow> ustring" where
  "str_nat n = (if n < 10 then [48 + n] else str_nat (n div 10) @ [48 + n mod 10])"

declare str_nat.simps [simp del]

definition start_marker :: ustring where
  "start_marker = str ''## '' @ [0x1F4CB] @ str '' **Complete Examples - Alphabetical Reference**''"

definition end_marker :: ustring where
  "end_marker = str ''## '' @ [0x1F3D7, 0xFE0F] @ str '' **Project Structure**''"

text \<open>
  One pass of the loop body for \<open>filename\<close>, whose first letter in upper case is
  \<open>first_letter\<close>: the letter heading when the letter changes (after a blank line, except
  before the first heading), the numbered link, the description, at most two key items,
  and a blank line.
\<close>

definition section_entry ::
  "deps \<Rightarrow> ustring \<Rightarrow> ustring \<Rightarrow> ustring option \<Rightarrow> nat \<Rightarrow> ustring list \<Rightarrow> ustring list" where
  "section_entry d filename first_letter current_letter file_number output =
     (let output1 =
            (if Some first_letter \<noteq> current_letter
             then output @ (if current_letter \<noteq> None then [[]] else [])
                    @ [str ''### '' @ first_letter @ [10]]
             else output);
          (description, key_items) = extract_file_description d filename
      in output1
         @ [str_nat file_number @ str ''. **['' @ filename @ str ''](''
              @ (str ''src/'' @ filename) @ str '')**'']
         @ [str ''   - '' @ description]
         @ map (\<lambda>item. str ''   - '' @ item) (take 2 key_items)
         @ [[]])"

text \<open>The loop over the files; \<^verbatim>\<open>filename[0]\<close> raises \<open>IndexError\<close> on an empty name.\<close>

fun section_loop ::
  "deps \<Rightarrow> ustring list \<Rightarrow> ustring option \<Rightarrow> nat \<Rightarrow> ustring list \<Rightarrow> exn + ustring list" where
  "section_loop d [] current_letter file_number output = Inr output"
| "section_loop d ([] # files) current_letter file_number output = Inl IndexError"
| "section_loop d ((c # cs) # files) current_letter file_number output =
     section_loop d files (Some (upper d [c])) (file_number + 1)
       (section_entry d (c # cs) (upper d [c]) current_letter file_number output)"

definition generate_alphabetical_section :: "deps \<Rightarrow> world \<Rightarrow> exn + ustring" where
  "generate_alphabetical_section d w =
     (case section_loop d (get_all_source_files d w) None 1
             [start_marker @ [10],
              str ''Below is a complete alphabetical listing of all C++ example files in this repository. '',
              str ''Each entry links to the source file with a brief description of its contents.'' @ [10]]
      of Inl e \<Rightarrow> Inl e
       | Inr output \<Rightarrow> Inr (join [10] output))"

subsection \<open>update_readme\<close>

text \<open>
  \<^verbatim>\<open>s.find(sub)\<close>: the index of the first occurrence of \<open>sub\<close> in \<open>s\<close>, or \<open>-1\<close>. The
  slices \<^verbatim>\<open>s[:i]\<close> and \<^verbatim>\<open>s[i:]\<close> count a negative \<open>i\<close> from the end.
\<close>

fun find_from :: "ustring \<Rightarrow> ustring \<Rightarrow> nat \<Rightarrow> int" where
  "find_from [] sub i = (if sub = [] then int i else - 1)"
| "find_from (c # cs) sub i = (if prefix sub (c # cs) then int i else find_from cs sub (Suc i))"

definition find :: "ustring \<Rightarrow> ustring \<Rightarrow> int" where
  "find s sub = find_from s sub 0"

definition slice_to :: "ustring \<Rightarrow> int \<Rightarrow> ustring" where
  "slice_to s i = (if i < 0 then take (nat (int (length s) + i)) s else take (nat i) s)"

definition slice_from :: "ustring \<Rightarrow> int \<Rightarrow> ustring" where
  "slice_from s i = (if i < 0 then drop (nat (int (length s) + i)) s else drop (nat i) s)"

text \<open>
  The function returns its boolean and leaves the files changed; the model returns both.
  Everything is inside \<^verbatim>\<open>try: ... except Exception\<close>, which reports the exception on
  \<open>stderr\<close> and returns \<open>False\<close>: an exception of the read, of the generation, of the
  write, or of the \<open>print\<close> that follows the write. A write that fails after \<open>open\<close>
  has emptied the file leaves it empty; a \<open>print\<close> that fails leaves the file written.
\<close>

definition update_readme :: "deps \<Rightarrow> world \<Rightarrow> bool \<times> world" where
  "update_readme d w =
     (case read_text (readme w) of
        Inl e \<Rightarrow> (False, w\<lparr>stderr := stderr w @ [UpdateError e]\<rparr>)
      | Inr content \<Rightarrow>
          let start_idx = find content start_marker;
              end_idx = find content end_marker
          in if start_idx = - 1 \<or> end_idx = - 1
             then (False, w\<lparr>stderr := stderr w @ [MarkersNotFound]\<rparr>)
             else (case generate_alphabetical_section d w of
                     Inl e \<Rightarrow> (False, w\<lparr>stderr := stderr w @ [UpdateError e]\<rparr>)
                   | Inr new_section \<Rightarrow>
                       let new_content =
                             slice_to content start_idx @ new_section
                             @ ([10] @ str ''---'' @ [10, 10])
                             @ slice_from content end_idx
                       in (case write_text d (root_writable w) (readme w) new_content of
                             (Some e, f) \<Rightarrow>
                               (False, w\<lparr>readme := f, stderr := stderr w @ [UpdateError e]\<rparr>)
                           | (None, f) \<Rightarrow>
                               (case print_stdout d ReadmeWritten (w\<lparr>readme := f\<rparr>) of
                                  Inl e \<Rightarrow>
                                    (False, w\<lparr>readme := f,
                                               stderr := stderr w @ [UpdateError e]\<rparr>)
                                | Inr w' \<Rightarrow> (True, w')))))"

subsection \<open>check_new_files\<close>

text \<open>
  \<^verbatim>\<open>re.findall(r'\[(\w+\.(?:cpp|cppm))\]', readme_content)\<close>. \<open>\w\<close> matches the
  alphanumeric characters and the underscore. At one position the pattern matches in at
  most one way: \<open>\w+\<close> has to take the whole run of word characters after the bracket,
  since the character after it must be a dot; then \<open>cpp]\<close> or \<open>cppm]\<close> must follow.
  \<open>match_link\<close> returns the group and the text after the match. \<open>findall\<close> scans from the
  left, goes on after a match, and moves one character on where there is none.
\<close>

definition is_word :: "deps \<Rightarrow> nat \<Rightarrow> bool" where
  "is_word d c =
     (if c < 128
      then (48 \<le> c \<and> c \<le> 57) \<or> (65 \<le> c \<and> c \<le> 90) \<or> (97 \<le> c \<and> c \<le> 122) \<or> c = 95
      else isalnum d c)"

definition match_link :: "deps \<Rightarrow> ustring \<Rightarrow> (ustring \<times> ustring) option" where
  "match_link d s =
     (case s of
        [] \<Rightarrow> None
      | c # cs \<Rightarrow>
          if c \<noteq> 91 then None
          else let name = takeWhile (is_word d) cs; r = dropWhile (is_word d) cs
               in if name = [] then None
                  else if prefix (str ''.cpp]'') r then Some (name @ str ''.cpp'', drop 5 r)
                  else if prefix (str ''.cppm]'') r then Some (name @ str ''.cppm'', drop 6 r)
                  else None)"

function findall :: "deps \<Rightarrow> ustring \<Rightarrow> ustring list" where
  "findall d [] = []"
| "findall d (c # cs) =
     (case match_link d (c # cs) of
        Some (g, rest) \<Rightarrow> g # findall d rest
      | None \<Rightarrow> findall d cs)"
  by pat_completeness auto

lemma match_link_shorter:
  "match_link d s = Some (g, rest) \<Longrightarrow> length rest < length s"
  by (auto simp: match_link_def Let_def split: list.splits if_splits)
     (metis length_dropWhile_le le_imp_less_Suc diff_le_self le_trans)+

termination findall
  by (relation "measure (\<lambda>(d, s). length s)") (auto dest: match_link_shorter)

text \<open>
  \<open>source_files\<close> and \<open>readme_files\<close> are Python sets; \<open>sorted\<close> of their difference is the
  list of its elements, each once, in ascending order of \<open>str\<close> (code point by code
  point). An exception of the read is caught: a warning, and the empty list.
\<close>

definition check_new_files :: "deps \<Rightarrow> world \<Rightarrow> ustring list \<times> world" where
  "check_new_files d w =
     (let source_files = get_all_source_files d w
      in case read_text (readme w) of
           Inl e \<Rightarrow> ([], w\<lparr>stderr := stderr w @ [CheckWarning e]\<rparr>)
         | Inr readme_content \<Rightarrow>
             let readme_files = findall d readme_content
             in (sort (remdups (filter (\<lambda>n. n \<notin> set readme_files) source_files)), w))"

subsection \<open>generate_index_template and main\<close>

definition template_entry :: "deps \<Rightarrow> ustring \<Rightarrow> ustring list" where
  "template_entry d filename =
     (let (description, key_items) = extract_file_description d filename
      in [[10] @ str ''### '' @ filename,
          str ''- **File:** ['' @ filename @ str ''](src/'' @ filename @ str '')'',
          str ''- **Description:** '' @ description,
          str ''- **Topics:** [TODO: Add relevant topics/keywords]'',
          str ''- **Suggested Sections:**'',
          str ''  - [ ] C++ Standards Features (C++11/14/17/20/23)'',
          str ''  - [ ] Design Patterns & Idioms'',
          str ''  - [ ] Concurrency & Parallelism'',
          str ''  - [ ] Real-Time & Embedded Systems'',
          str ''  - [ ] Safety-Critical & Standards'',
          str ''  - [ ] Other: _____________'']
         @ (if key_items \<noteq> []
            then [str ''- **Key Items:** '' @ join (str '', '') key_items]
            else []))"

definition generate_index_template :: "deps \<Rightarrow> ustring list \<Rightarrow> ustring" where
  "generate_index_template d new_files =
     (if new_files = [] then []
      else join [10]
             ([[10] @ replicate 70 61,
               str ''NEW FILES DETECTED - INDEX.md UPDATE TEMPLATE'',
               replicate 70 61,
               [10] @ str ''Add these files to appropriate sections in INDEX.md:'' @ [10]]
              @ concat (map (template_entry d) new_files)
              @ [[10] @ replicate 70 61,
                 str ''Copy relevant sections above into INDEX.md'',
                 replicate 70 61 @ [10]]))"

text \<open>
  The template step of \<open>main\<close> (lines 253 to 266), taken when there are new files: the
  template is generated, written to \<open>INDEX_UPDATE_TEMPLATE.txt\<close> and printed. Nothing
  here is in a \<open>try\<close>: the result is the exception that leaves the step, if any.
\<close>

definition write_template :: "deps \<Rightarrow> ustring list \<Rightarrow> world \<Rightarrow> exn option \<times> world" where
  "write_template d new_files w =
     (case print_stdout d GeneratingTemplate w of
        Inl e \<Rightarrow> (Some e, w)
      | Inr w1 \<Rightarrow>
          let template = generate_index_template d new_files
          in (case write_text d (root_writable w1) (world.template w1) template of
                (Some e, f) \<Rightarrow> (Some e, w1\<lparr>template := f\<rparr>)
              | (None, f) \<Rightarrow>
                  (case print_stdout d (TemplateSaved template) (w1\<lparr>template := f\<rparr>) of
                     Inl e \<Rightarrow> (Some e, w1\<lparr>template := f\<rparr>)
                   | Inr w2 \<Rightarrow> (None, w2))))"

text \<open>The summary at the end of \<open>main\<close> (lines 268 to 286), and the return of 0.\<close>

definition summary :: "deps \<Rightarrow> ustring list \<Rightarrow> world \<Rightarrow> (exn + int) \<times> world" where
  "summary d new_files w =
     (let all_files = get_all_source_files d w
      in case print_stdout d (Summary (length all_files) new_files) w of
           Inl e \<Rightarrow> (Inl e, w)
         | Inr w1 \<Rightarrow> (Inr 0, w1))"

text \<open>
  \<open>main\<close> returns the exit code (the script ends with \<^verbatim>\<open>sys.exit(main())\<close>), unless
  an exception leaves it: \<open>main\<close> has no \<open>try\<close>, so an exception of one of its prints
  or of the write of the template is not caught. \<open>Inr n\<close> is the return of \<open>n\<close>, \<open>Inl e\<close>
  the exception \<open>e\<close>.
\<close>

definition main :: "deps \<Rightarrow> world \<Rightarrow> (exn + int) \<times> world" where
  "main d w =
     (case print_stdout d Banner w of
        Inl e \<Rightarrow> (Inl e, w)
      | Inr w0 \<Rightarrow>
          if src_dir w0 = None then (Inr 1, w0\<lparr>stderr := stderr w0 @ [SrcDirNotFound]\<rparr>)
          else if readme w0 = None
          then (Inr 1, w0\<lparr>stderr := stderr w0 @ [ReadmeNotFound]\<rparr>)
          else
            let (new_files, w1) = check_new_files d w0
            in (case print_stdout d (NewFiles new_files) w1 of
                  Inl e \<Rightarrow> (Inl e, w1)
                | Inr w2 \<Rightarrow>
                   (case print_stdout d Updating w2 of
                      Inl e \<Rightarrow> (Inl e, w2)
                    | Inr w3 \<Rightarrow>
                       let (updated, w4) = update_readme d w3
                       in if \<not> updated
                          then (case print_stdout d UpdateFailed w4 of
                                  Inl e \<Rightarrow> (Inl e, w4)
                                | Inr w5 \<Rightarrow> (Inr 1, w5))
                          else (case print_stdout d UpdateSucceeded w4 of
                                  Inl e \<Rightarrow> (Inl e, w4)
                                | Inr w5 \<Rightarrow>
                                   if new_files \<noteq> []
                                   then (case write_template d new_files w5 of
                                           (Some e, w6) \<Rightarrow> (Inl e, w6)
                                         | (None, w6) \<Rightarrow> summary d new_files w6)
                                   else summary d new_files w5))))"

subsection \<open>Notions used to state the properties\<close>

text \<open>\<open>sub\<close> occurs in \<open>s\<close> at position \<open>i\<close> and at no earlier position.\<close>

definition first_at :: "ustring \<Rightarrow> ustring \<Rightarrow> nat \<Rightarrow> bool" where
  "first_at s sub i \<longleftrightarrow>
     i \<le> length s \<and> prefix sub (drop i s) \<and> (\<forall>j<i. \<not> prefix sub (drop j s))"


text \<open>
  The names the pattern of \<open>check_new_files\<close> can match: a non-empty run of word
  characters and the extension \<open>.cpp\<close> or \<open>.cppm\<close>.
\<close>

definition wordy :: "deps \<Rightarrow> ustring \<Rightarrow> bool" where
  "wordy d g \<longleftrightarrow>
     (\<exists>name. name \<noteq> [] \<and> (\<forall>c \<in> set name. is_word d c) \<and>
             (g = name @ str ''.cpp'' \<or> g = name @ str ''.cppm''))"

text \<open>
  A runtime and files for the closed examples: ASCII case mapping, no alphanumeric
  character beyond ASCII, the line feed as line separator, the default description for
  every file, a standard output that prints everything; a project with the given
  directory listing and a readable, writable README of the given text, no template file
  and nothing printed yet.
\<close>

definition example_deps :: deps where
  "example_deps =
     \<lparr>isalnum = (\<lambda>c. False),
      lower = map (\<lambda>c. if 65 \<le> c \<and> c \<le> 90 then c + 32 else c),
      upper = map (\<lambda>c. if 97 \<le> c \<and> c \<le> 122 then c - 32 else c),
      linesep = [10],
      extract_file_description =
        (\<lambda>filename. (str ''Modern C++ example demonstrating various features'', [])),
      stdout_raises = (\<lambda>r. None)\<rparr>"

definition example_world :: "ustring list \<Rightarrow> ustring \<Rightarrow> world" where
  "example_world names content =
     \<lparr>src_dir = Some names,
      readme = Some \<lparr>stored = Text content, readable = True, writable = True\<rparr>,
      template = None, root_writable = True, reports = [], stderr = []\<rparr>"

section \<open>The smoke test (test_pybind.py)\<close>







section \<open>Properties of the anagram script\<close>

subsection \<open>Dict operations\<close>

lemma map_of_dict_set: "map_of (dict_set d k v) = (map_of d)(k \<mapsto> v)"
  by (induction d) (auto simp: fun_eq_iff)

lemma keys_dict_set: "fst ` set (dict_set d k v) = insert k (fst ` set d)"
proof (induction d)
  case Nil
  then show ?case by simp
next
  case (Cons p d)
  obtain k' v' where p: "p = (k', v')" by (cases p)
  show ?case
  proof (cases "k' = k")
    case True
    then show ?thesis by (simp add: p)
  next
    case False
    then show ?thesis using Cons.IH by (simp add: p insert_commute)
  qed
qed

lemma distinct_dict_set: "distinct (map fst d) \<Longrightarrow> distinct (map fst (dict_set d k v))"
proof (induction d)
  case Nil
  then show ?case by simp
next
  case (Cons p d)
  obtain k' v' where p: "p = (k', v')" by (cases p)
  from Cons show ?case
    using keys_dict_set [of d k v] by (auto simp: p)
qed

lemma set_dict_set: "set (dict_set d k v) \<subseteq> insert (k, v) (set d)"
  by (induction d) (auto split: if_splits)

subsection \<open>The comprehension that builds \<open>Pairs\<close>\<close>

lemma distinct_pairs_loop:
  "distinct (map fst acc) \<Longrightarrow> distinct (map fst (pairs_loop xs acc))"
  by (induction xs arbitrary: acc) (auto simp: distinct_dict_set)

lemma keys_pairs_loop: "fst ` set (pairs_loop xs acc) = fst ` set acc \<union> set xs"
  by (induction xs arbitrary: acc) (auto simp: keys_dict_set)

lemma values_pairs_loop:
  "\<forall>p \<in> set acc. snd p = signature (fst p) \<Longrightarrow>
   \<forall>p \<in> set (pairs_loop xs acc). snd p = signature (fst p)"
proof (induction xs arbitrary: acc)
  case Nil
  then show ?case by simp
next
  case (Cons x xs)
  have "\<forall>p \<in> set (dict_set acc x (signature x)). snd p = signature (fst p)"
    using Cons.prems set_dict_set [of acc x "signature x"] by auto
  then show ?case using Cons.IH by simp
qed

lemma pairs_loop_entry:
  "(w, s) \<in> set (pairs_loop d []) \<longleftrightarrow> w \<in> set d \<and> s = signature w"
proof
  assume a: "(w, s) \<in> set (pairs_loop d [])"
  then have "w \<in> fst ` set (pairs_loop d [])" by force
  then have "w \<in> set d" by (simp add: keys_pairs_loop)
  moreover have "s = signature w"
    using values_pairs_loop [of "[]" d] a by auto
  ultimately show "w \<in> set d \<and> s = signature w" ..
next
  assume b: "w \<in> set d \<and> s = signature w"
  then have "w \<in> fst ` set (pairs_loop d [])" by (simp add: keys_pairs_loop)
  then obtain s' where s': "(w, s') \<in> set (pairs_loop d [])" by auto
  then have "s' = signature w" using values_pairs_loop [of "[]" d] by auto
  with s' b show "(w, s) \<in> set (pairs_loop d [])" by simp
qed

lemma filter_key_distinct:
  "distinct (map fst l) \<Longrightarrow> (k, v) \<in> set l \<Longrightarrow> filter (\<lambda>p. fst p = k) l = [(k, v)]"
proof (induction l)
  case Nil
  then show ?case by simp
next
  case (Cons p l)
  show ?case
  proof (cases "fst p = k")
    case True
    with Cons.prems have "filter (\<lambda>p. fst p = k) l = []"
      by (auto simp: filter_empty_conv image_iff)
    moreover from True Cons.prems have "p = (k, v)"
      by (cases p) (auto simp: image_iff)
    ultimately show ?thesis by simp
  next
    case False
    with Cons show ?thesis by auto
  qed
qed

subsection \<open>The grouping loop\<close>

lemma map_of_setdefault_append:
  "map_of (setdefault_append d v k) =
     (map_of d)(v \<mapsto> (case map_of d v of None \<Rightarrow> [] | Some ws \<Rightarrow> ws) @ [k])"
  by (simp add: setdefault_append_def map_of_dict_set split: option.split)

lemma distinct_setdefault_append:
  "distinct (map fst d) \<Longrightarrow> distinct (map fst (setdefault_append d v k))"
  by (simp add: setdefault_append_def distinct_dict_set split: option.split)

lemma distinct_anagrams_loop:
  "distinct (map fst acc) \<Longrightarrow> distinct (map fst (anagrams_loop items words acc))"
  by (induction items words acc rule: anagrams_loop.induct)
     (simp_all add: distinct_setdefault_append)

lemma map_of_anagrams_loop:
  "map_of (anagrams_loop items words acc) g =
     (if map fst (filter (\<lambda>p. snd p = g \<and> g \<in> set words) items) = [] then map_of acc g
      else Some ((case map_of acc g of None \<Rightarrow> [] | Some ws \<Rightarrow> ws)
                 @ map fst (filter (\<lambda>p. snd p = g \<and> g \<in> set words) items)))"
  by (induction items words acc rule: anagrams_loop.induct)
     (auto simp: map_of_setdefault_append split: option.splits)

lemma anagrams_entry_iff:
  "(g, ws) \<in> set (anagrams_loop (pairs_loop d []) d []) \<longleftrightarrow>
     ws \<noteq> [] \<and> ws = map fst (filter (\<lambda>p. snd p = g \<and> g \<in> set d) (pairs_loop d []))"
proof -
  have "distinct (map fst (anagrams_loop (pairs_loop d []) d []))"
    by (rule distinct_anagrams_loop) simp
  then have "(g, ws) \<in> set (anagrams_loop (pairs_loop d []) d []) \<longleftrightarrow>
      map_of (anagrams_loop (pairs_loop d []) d []) g = Some ws"
    by simp
  then show ?thesis
    by (auto simp: map_of_anagrams_loop)
qed

lemma anagrams_members:
  "set (map fst (filter (\<lambda>p. snd p = g \<and> g \<in> set d) (pairs_loop d []))) =
     {k \<in> set d. signature k = g \<and> g \<in> set d}"
  using pairs_loop_entry [of _ _ d] by (auto simp: image_iff)


lemma anagrams_entry:
  assumes "(g, ws) \<in> set (anagrams_loop (pairs_loop d []) d [])"
  shows "g \<in> set d" and "set ws = {k \<in> set d. signature k = g}" and "ws \<noteq> []"
proof -
  from assms have
    "ws \<noteq> [] \<and> ws = map fst (filter (\<lambda>p. snd p = g \<and> g \<in> set d) (pairs_loop d []))"
    using anagrams_entry_iff [of g ws d] by blast
  then have ne: "ws \<noteq> []"
    and ws: "ws = map fst (filter (\<lambda>p. snd p = g \<and> g \<in> set d) (pairs_loop d []))"
    by blast+
  from ws have s: "set ws = {k \<in> set d. signature k = g \<and> g \<in> set d}"
    by (simp only: anagrams_members)
  from ne have "set ws \<noteq> {}" by simp
  with s show "g \<in> set d" by auto
  with s show "set ws = {k \<in> set d. signature k = g}" by auto
  from ne show "ws \<noteq> []" .
qed

lemma anagrams_key_exists:
  assumes "k \<in> set d" and "signature k \<in> set d"
  shows "\<exists>ws. (signature k, ws) \<in> set (anagrams_loop (pairs_loop d []) d []) \<and> k \<in> set ws"
proof -
  define ws where
    "ws = map fst (filter (\<lambda>p. snd p = signature k \<and> signature k \<in> set d) (pairs_loop d []))"
  have "set ws = {w \<in> set d. signature w = signature k \<and> signature k \<in> set d}"
    unfolding ws_def by (rule anagrams_members)
  with assms have k: "k \<in> set ws" by simp
  then have "ws \<noteq> []" by auto
  then have "(signature k, ws) \<in> set (anagrams_loop (pairs_loop d []) d [])"
    unfolding anagrams_entry_iff ws_def by simp
  with k show ?thesis by blast
qed

lemma same_group_iff:
  assumes "w1 \<in> set d" and "w2 \<in> set d"
  shows "same_group (anagrams_loop (pairs_loop d []) d []) w1 w2 \<longleftrightarrow>
           signature w1 = signature w2 \<and> signature w1 \<in> set d"
proof
  assume "same_group (anagrams_loop (pairs_loop d []) d []) w1 w2"
  then obtain g ws where e: "(g, ws) \<in> set (anagrams_loop (pairs_loop d []) d [])"
    and m: "w1 \<in> set ws" "w2 \<in> set ws"
    by (auto simp: same_group_def list_ex_iff)
  from anagrams_entry(1,2) [OF e] m
  show "signature w1 = signature w2 \<and> signature w1 \<in> set d" by auto
next
  assume a: "signature w1 = signature w2 \<and> signature w1 \<in> set d"
  with assms obtain ws where e: "(signature w1, ws) \<in> set (anagrams_loop (pairs_loop d []) d [])"
    using anagrams_key_exists [of w1 d] by blast
  from anagrams_entry(2) [OF e] assms a have "w1 \<in> set ws" "w2 \<in> set ws" by auto
  with e show "same_group (anagrams_loop (pairs_loop d []) d []) w1 w2"
    by (auto simp: same_group_def list_ex_iff)
qed

lemma signature_idem: "signature (signature w) = signature w"
  unfolding signature_def by (rule sorted_sort_id) simp

text \<open>
  Claim C1. For all words \<open>w1\<close>, \<open>w2\<close> of \<open>mDictionary\<close>: some group list of
  \<open>Anagrams\<close> holds both exactly when their sorted-character signatures are equal and
  that signature is itself an element of \<open>mDictionary\<close>. (With \<open>w1 = w2\<close>: a word is
  in a group at all exactly when its signature is a dictionary word.)
\<close>

theorem anagrams_grouping:
  "\<forall>w1 \<in> set mDictionary. \<forall>w2 \<in> set mDictionary.
     same_group Anagrams w1 w2 \<longleftrightarrow>
       signature w1 = signature w2 \<and> signature w1 \<in> set mDictionary"
  unfolding Anagrams_def Pairs_def by (simp add: same_group_iff)

text \<open>\<open>act\<close> and \<open>cat\<close> share the group of \<open>act\<close>; \<open>bat\<close> is in no group, since
  its signature \<open>abt\<close> is not a dictionary word.\<close>

theorem anagrams_grouping_witness:
  "''act'' \<in> set mDictionary \<and> ''cat'' \<in> set mDictionary \<and> same_group Anagrams ''act'' ''cat''
   \<and> signature ''act'' = signature ''cat'' \<and> signature ''act'' \<in> set mDictionary
   \<and> ''bat'' \<in> set mDictionary \<and> ''tab'' \<notin> set mDictionary \<and> signature ''bat'' \<notin> set mDictionary
   \<and> \<not> same_group Anagrams ''bat'' ''bat''"
proof -
  have m: "''act'' \<in> set mDictionary" "''cat'' \<in> set mDictionary" "''bat'' \<in> set mDictionary"
    by (simp_all add: mDictionary_def)
  have s: "signature ''act'' = ''act''" "signature ''cat'' = ''act''" "signature ''bat'' = ''abt''"
    by (simp_all add: signature_def)
  have n: "''abt'' \<notin> set mDictionary" "''tab'' \<notin> set mDictionary"
    by (simp_all add: mDictionary_def)
  from anagrams_grouping m s n show ?thesis by simp
qed


subsection \<open>Signatures\<close>

lemma signature_unique: "sorted s \<Longrightarrow> mset s = mset x \<Longrightarrow> s = signature x"
  unfolding signature_def by (simp add: properties_for_sort)

lemma pairs_run_loop: "pairs_run xs acc (pairs_loop xs acc)"
proof (induction xs arbitrary: acc)
  case Nil
  show ?case by (simp add: pairs_run_done)
next
  case (Cons x xs)
  have "sorted (signature x)" and "mset (signature x) = mset x"
    by (simp_all add: signature_def)
  then show ?case
    using Cons [of "dict_set acc x (signature x)"] by (simp add: pairs_run_step)
qed

lemma pairs_run_unique: "pairs_run xs acc P \<Longrightarrow> P = pairs_loop xs acc"
  by (induction rule: pairs_run.induct) (auto dest: signature_unique)

lemma pairs_of_word:
  assumes "w \<in> set d"
  shows "map snd (filter (\<lambda>p. fst p = w) (pairs_loop d [])) = [signature w]"
proof -
  from assms have "(w, signature w) \<in> set (pairs_loop d [])"
    by (simp add: pairs_loop_entry)
  moreover have "distinct (map fst (pairs_loop d []))"
    by (rule distinct_pairs_loop) simp
  ultimately have "filter (\<lambda>p. fst p = w) (pairs_loop d []) = [(w, signature w)]"
    by (rule filter_key_distinct [rotated])
  then show ?thesis by simp
qed

text \<open>
  Claim C8. For every word \<open>w\<close> of \<open>mDictionary\<close>, \<open>Pairs\<close> holds exactly one entry
  for \<open>w\<close>, and its value is the signature of \<open>w\<close>: the characters of \<open>w\<close> (the same
  multiset) in ascending order, which is the only string with these two properties. The
  construction is deterministic: every run of the comprehension on \<open>mDictionary\<close>,
  whatever sorting algorithm computes \<open>sorted\<close>, ends with the same dict \<open>Pairs\<close>.
\<close>

theorem pairs_signature:
  "(\<forall>w \<in> set mDictionary.
      map snd (filter (\<lambda>p. fst p = w) Pairs) = [signature w]
      \<and> sorted (signature w) \<and> mset (signature w) = mset w
      \<and> (\<forall>s. sorted s \<and> mset s = mset w \<longrightarrow> s = signature w))
   \<and> (\<forall>P. pairs_run mDictionary [] P \<longleftrightarrow> P = Pairs)"
proof (intro conjI ballI allI)
  fix w assume "w \<in> set mDictionary"
  then show "map snd (filter (\<lambda>p. fst p = w) Pairs) = [signature w]"
    unfolding Pairs_def by (rule pairs_of_word)
next
  fix w show "sorted (signature w)" by (simp add: signature_def)
next
  fix w show "mset (signature w) = mset w" by (simp add: signature_def)
next
  fix w s show "sorted s \<and> mset s = mset w \<longrightarrow> s = signature w"
    by (simp add: signature_unique)
next
  fix P show "pairs_run mDictionary [] P \<longleftrightarrow> P = Pairs"
    unfolding Pairs_def using pairs_run_loop pairs_run_unique by blast
qed

theorem pairs_signature_witness:
  "''cat'' \<in> set mDictionary \<and> map snd (filter (\<lambda>p. fst p = ''cat'') Pairs) = [''act'']
   \<and> signature ''cat'' = ''act'' \<and> sorted ''act'' \<and> mset ''act'' = mset ''cat''
   \<and> pairs_run mDictionary [] Pairs"
proof -
  have m: "''cat'' \<in> set mDictionary" by (simp add: mDictionary_def)
  have s: "signature ''cat'' = ''act''" by (simp add: signature_def)
  from pairs_signature m s show ?thesis by auto
qed

text \<open>
  Claim C9. Every key \<open>k\<close> of \<open>Anagrams\<close> is a fixed point of the sorting transform,
  is a word of \<open>mDictionary\<close>, and is an element of its own group list.
\<close>

theorem anagrams_keys:
  "\<forall>(k, ws) \<in> set Anagrams. signature k = k \<and> k \<in> set mDictionary \<and> k \<in> set ws"
proof (intro ballI, clarify)
  fix k ws assume "(k, ws) \<in> set Anagrams"
  then have e: "(k, ws) \<in> set (anagrams_loop (pairs_loop mDictionary []) mDictionary [])"
    by (simp add: Anagrams_def Pairs_def)
  note k = anagrams_entry(1) [OF e] and ws = anagrams_entry(2) [OF e] and ne = anagrams_entry(3) [OF e]
  from ne obtain w where "w \<in> set ws" by (cases ws) auto
  with ws have "signature w = k" by simp
  then have f: "signature k = k" using signature_idem [of w] by simp
  with k ws show "signature k = k \<and> k \<in> set mDictionary \<and> k \<in> set ws" by simp
qed


theorem anagrams_keys_witness:
  "(''art'', [''art'', ''tar'', ''rat'']) \<in> set Anagrams \<and> signature ''art'' = ''art''
   \<and> ''art'' \<in> set mDictionary \<and> ''art'' \<in> set [''art'', ''tar'', ''rat'']"
proof -
  have "(''art'', [''art'', ''tar'', ''rat'']) \<in> set Anagrams"
    by (simp add: Anagrams_def Pairs_def mDictionary_def signature_def setdefault_append_def)
  with anagrams_keys show ?thesis by auto
qed

subsection \<open>The output of the script\<close>

lemma Pairs_value:
  "Pairs =
    [(''act'', ''act''), (''ant'', ''ant''), (''art'', ''art''), (''bat'', ''abt''),
     (''bet'', ''bet''), (''boss'', ''boss''), (''cat'', ''act''), (''cap'', ''acp''),
     (''cop'', ''cop''), (''dear'', ''ader''), (''dog'', ''dgo''), (''dip'', ''dip''),
     (''ear'', ''aer''), (''end'', ''den''), (''eel'', ''eel''), (''fad'', ''adf''),
     (''fat'', ''aft''), (''fog'', ''fgo''), (''gap'', ''agp''), (''god'', ''dgo''),
     (''hat'', ''aht''), (''hit'', ''hit''), (''hot'', ''hot''), (''ink'', ''ikn''),
     (''irk'', ''ikr''), (''jot'', ''jot''), (''jab'', ''abj''), (''lap'', ''alp''),
     (''lip'', ''ilp''), (''lot'', ''lot''), (''man'', ''amn''), (''nan'', ''ann''),
     (''nat'', ''ant''), (''net'', ''ent''), (''pat'', ''apt''), (''pet'', ''ept''),
     (''tap'', ''apt''), (''tar'', ''art''), (''ten'', ''ent''), (''rat'', ''art''),
     (''woo'', ''oow''), (''yoo'', ''ooy''), (''zoo'', ''ooz'')]"
  by (simp add: Pairs_def mDictionary_def signature_def)

lemma Anagrams_value:
  "Anagrams =
    [(''act'', [''act'', ''cat'']), (''ant'', [''ant'', ''nat'']),
     (''art'', [''art'', ''tar'', ''rat'']), (''bet'', [''bet'']),
     (''boss'', [''boss'']), (''cop'', [''cop'']), (''dip'', [''dip'']),
     (''eel'', [''eel'']), (''hit'', [''hit'']), (''hot'', [''hot'']),
     (''jot'', [''jot'']), (''lot'', [''lot''])]"
  unfolding Anagrams_def Pairs_value
  by (simp add: mDictionary_def setdefault_append_def)

lemma stdout_value:
  "stdout anagram_script =
     label_pairs #
     [''act act'', ''ant ant'', ''art art'', ''bat abt'', ''bet bet'',
      ''boss boss'', ''cat act'', ''cap acp'', ''cop cop'', ''dear ader'',
      ''dog dgo'', ''dip dip'', ''ear aer'', ''end den'', ''eel eel'',
      ''fad adf'', ''fat aft'', ''fog fgo'', ''gap agp'', ''god dgo'',
      ''hat aht'', ''hit hit'', ''hot hot'', ''ink ikn'', ''irk ikr'',
      ''jot jot'', ''jab abj'', ''lap alp'', ''lip ilp'', ''lot lot'',
      ''man amn'', ''nan ann'', ''nat ant'', ''net ent'', ''pat apt'',
      ''pet ept'', ''tap apt'', ''tar art'', ''ten ent'', ''rat art'',
      ''woo oow'', ''yoo ooy'', ''zoo ooz'']
     @ label_find # label_anagrams #
     map (\<lambda>(k, v). print2 k (str_list v)) Anagrams"
  by (simp add: anagram_script_def Pairs_value print2_def)


lemma sections_value:
  "map (\<lambda>s. (fst s, length (snd s))) (sections (stdout anagram_script)) =
     [(label_pairs, 43), (label_find, 0), (label_anagrams, 12)]"
  unfolding stdout_value Anagrams_value
  by (simp add: is_label_def label_pairs_def label_find_def label_anagrams_def
      print2_def str_list_def repr_str_def)

text \<open>
  Claim C4 as stated fails: the output has three labelled sections, not two. The label
  \<open>Find Keys With Same Values\<close> is printed as well, with no line under it.
\<close>

theorem anagram_script_three_labels:
  "\<not> (length (sections (stdout anagram_script)) = 2 \<and> exit_status (ending anagram_script) = 0)"
proof -
  have "length (map (\<lambda>s. (fst s, length (snd s))) (sections (stdout anagram_script))) = 3"
    by (simp only: sections_value) simp
  then show ?thesis by simp
qed

text \<open>
  Claim C4, amended. The script takes no input (a run is the constant
  \<open>anagram_script\<close>); it prints three label lines, of which exactly the first and the
  third are followed by item lines (the 43 entries of \<open>Pairs\<close> and the 12 entries of
  \<open>Anagrams\<close>) while the second is followed directly by the third; and it runs to its
  end, so its exit status is 0.
\<close>

theorem anagram_script_output:
  "map fst (sections (stdout anagram_script)) = [label_pairs, label_find, label_anagrams]
   \<and> map (\<lambda>s. length (snd s)) (sections (stdout anagram_script)) = [43, 0, 12]
   \<and> exit_status (ending anagram_script) = 0"
proof -
  have "map fst (map (\<lambda>s. (fst s, length (snd s))) (sections (stdout anagram_script)))
      = [label_pairs, label_find, label_anagrams]"
    by (simp only: sections_value) simp
  moreover
  have "map snd (map (\<lambda>s. (fst s, length (snd s))) (sections (stdout anagram_script)))
      = [43, 0, 12]"
    by (simp only: sections_value) simp
  moreover have "exit_status (ending anagram_script) = 0"
    by (simp add: anagram_script_def)
  ultimately show ?thesis by (simp add: comp_def)
qed

section \<open>Properties of the documentation updater\<close>

subsection \<open>find, the generated section, the pattern\<close>

lemma find_from_ge: "find_from s sub i = - 1 \<or> int i \<le> find_from s sub i"
  by (induction s sub i rule: find_from.induct) auto

lemma find_from_shift:
  "find_from s sub i = (if find_from s sub 0 = - 1 then - 1 else int i + find_from s sub 0)"
proof (induction s arbitrary: i)
  case Nil
  show ?case by simp
next
  case (Cons c cs)
  show ?case
    using Cons [of "Suc i"] Cons [of "Suc 0"] find_from_ge [of cs sub 0]
    by auto
qed

lemma find_Nil: "find [] sub = (if sub = [] then 0 else - 1)"
  by (simp add: find_def)

lemma find_Cons:
  "find (c # cs) sub =
     (if prefix sub (c # cs) then 0 else if find cs sub = - 1 then - 1 else 1 + find cs sub)"
  unfolding find_def using find_from_shift [of cs sub "Suc 0"] by simp

lemma find_ge: "find s sub = - 1 \<or> 0 \<le> find s sub"
  unfolding find_def using find_from_ge [of s sub 0] by simp

lemma find_missing: "find s sub = - 1 \<longleftrightarrow> \<not> sublist sub s"
proof (induction s)
  case Nil
  show ?case by (simp add: find_Nil)
next
  case (Cons c cs)
  show ?case
    using Cons find_ge [of cs sub] by (auto simp: find_Cons sublist_Cons_right)
qed

lemma find_first:
  assumes "find s sub = int i"
  shows "i \<le> length s" and "prefix sub (drop i s)" and "\<forall>j<i. \<not> prefix sub (drop j s)"
  using assms
proof (induction s arbitrary: i)
  case Nil
  {
    case 1 then show ?case by (simp add: find_Nil split: if_splits)
  next
    case 2 then show ?case by (simp add: find_Nil split: if_splits)
  next
    case 3 then show ?case by (simp add: find_Nil split: if_splits)
  }
next
  case (Cons c cs)
  {
    case 1
    then show ?case
      using Cons(1) [of "i - 1"] find_ge [of cs sub]
      by (auto simp: find_Cons split: if_splits)
  next
    case 2
    then show ?case
      using Cons(2) [of "i - 1"] find_ge [of cs sub]
      by (cases i) (auto simp: find_Cons split: if_splits)
  next
    case 3
    then show ?case
      using Cons(3) [of "i - 1"] find_ge [of cs sub]
      by (cases i) (auto simp: find_Cons less_Suc_eq_0_disj split: if_splits)
  }
qed

lemma section_loop_total:
  "\<forall>n \<in> set files. n \<noteq> [] \<Longrightarrow> \<exists>out. section_loop d files cur k acc = Inr out"
  by (induction d files cur k acc rule: section_loop.induct) auto

lemma endswith_nonempty: "endswith n e \<Longrightarrow> e \<noteq> [] \<Longrightarrow> n \<noteq> []"
  by (auto simp: endswith_def)

lemma source_files_set:
  "set (get_all_source_files d w) =
     (case src_dir w of None \<Rightarrow> {}
      | Some names \<Rightarrow> {n \<in> set names. endswith n (str ''.cpp'') \<or> endswith n (str ''.cppm'')})"
  by (auto simp: get_all_source_files_def glob_def split: option.splits)

lemma source_files_nonempty: "n \<in> set (get_all_source_files d w) \<Longrightarrow> n \<noteq> []"
  by (auto simp: source_files_set endswith_def str_def split: option.splits)

lemma generate_total: "\<exists>new_section. generate_alphabetical_section d w = Inr new_section"
proof -
  have "\<forall>n \<in> set (get_all_source_files d w). n \<noteq> []"
    by (simp add: source_files_nonempty)
  from section_loop_total [OF this]
  show ?thesis
    unfolding generate_alphabetical_section_def by (metis sum.simps(6))
qed

lemma first_at_find: "first_at s sub i \<longleftrightarrow> find s sub = int i"
proof
  assume "find s sub = int i"
  then show "first_at s sub i"
    unfolding first_at_def using find_first [of s sub i] by blast
next
  assume a: "first_at s sub i"
  then have "sublist sub s"
    unfolding first_at_def by (metis append_take_drop_id prefix_def sublist_appendI)
  then have "find s sub \<noteq> - 1" by (simp add: find_missing)
  then obtain k where k: "find s sub = int k"
    using find_ge [of s sub] by (metis nonneg_int_cases)
  from find_first [OF k] a have "\<not> k < i" "\<not> i < k"
    unfolding first_at_def by blast+
  with k show "find s sub = int i" by simp
qed

lemma sublist_first_at: "sublist sub s \<longleftrightarrow> (\<exists>i. first_at s sub i)"
proof
  assume "sublist sub s"
  then have "find s sub \<noteq> - 1" by (simp add: find_missing)
  then have "0 \<le> find s sub" using find_ge [of s sub] by simp
  then obtain i where "find s sub = int i" by (metis nonneg_int_cases)
  then show "\<exists>i. first_at s sub i" by (auto simp: first_at_find)
next
  assume "\<exists>i. first_at s sub i"
  then obtain i where "find s sub = int i" by (auto simp: first_at_find)
  then have "find s sub \<noteq> - 1" by simp
  then show "sublist sub s" by (simp add: find_missing)
qed

lemma sublist_find: "sublist sub s \<longleftrightarrow> find s sub \<noteq> - 1"
  by (simp add: find_missing)


lemma findall_wordy:
  "g \<in> set (findall d s) \<Longrightarrow>
     \<exists>name. name \<noteq> [] \<and> (\<forall>c \<in> set name. is_word d c) \<and>
            (g = name @ str ''.cpp'' \<or> g = name @ str ''.cppm'')"
proof (induction d s rule: findall.induct)
  case (1 d)
  then show ?case by simp
next
  case (2 d c cs)
  show ?case
  proof (cases "match_link d (c # cs)")
    case None
    with 2 show ?thesis by simp
  next
    case (Some m)
    obtain g' rest where m: "m = (g', rest)" by (cases m)
    from Some m have w: "\<exists>name. name \<noteq> [] \<and> (\<forall>c \<in> set name. is_word d c) \<and>
            (g' = name @ str ''.cpp'' \<or> g' = name @ str ''.cppm'')"
      by (auto simp: match_link_def Let_def split: if_splits dest: set_takeWhileD)
    from 2 Some m show ?thesis using w by auto
  qed
qed

lemma hyphen_not_found: "str ''a-b.cpp'' \<notin> set (findall d s)"
proof
  assume "str ''a-b.cpp'' \<in> set (findall d s)"
  from findall_wordy [OF this] obtain name where n: "\<forall>c \<in> set name. is_word d c"
    and e: "str ''a-b.cpp'' = name @ str ''.cpp'' \<or> str ''a-b.cpp'' = name @ str ''.cppm''"
    by blast
  from e have "butlast (butlast (butlast (butlast (str ''a-b.cpp'')))) = name
      \<or> butlast (butlast (butlast (butlast (butlast (str ''a-b.cpp''))))) = name"
    by (auto simp: str_def butlast_append)
  then have "45 \<in> set name \<or> name = str ''a-''"
    by (auto simp: str_def)
  then have "45 \<in> set name" by (auto simp: str_def)
  with n have "is_word d 45" by blast
  then show False by (simp add: is_word_def)
qed

lemma section_entry_keeps: "set acc \<subseteq> set (section_entry d n fl cur k acc)"
  by (cases "extract_file_description d n") (auto simp: section_entry_def Let_def)

lemma section_entry_line:
  "str_nat k @ str ''. **['' @ n @ str ''](''  @ (str ''src/'' @ n) @ str '')**''
     \<in> set (section_entry d n fl cur k acc)"
  by (cases "extract_file_description d n") (auto simp: section_entry_def Let_def)

lemma section_loop_keeps:
  "section_loop d files cur k acc = Inr out \<Longrightarrow> set acc \<subseteq> set out"
proof (induction d files cur k acc rule: section_loop.induct)
  case (3 d c cs files cur k acc)
  then show ?case using section_entry_keeps [of acc d "c # cs" "upper d [c]" cur k] by auto
qed simp_all

lemma section_loop_line:
  "section_loop d files cur k acc = Inr out \<Longrightarrow> n \<in> set files \<Longrightarrow>
     \<exists>i. str_nat i @ str ''. **['' @ n @ str ''](''  @ (str ''src/'' @ n) @ str '')**'' \<in> set out"
proof (induction d files cur k acc rule: section_loop.induct)
  case (3 d c cs files cur k acc)
  show ?case
  proof (cases "n = c # cs")
    case True
    from 3(2) have "set (section_entry d (c # cs) (upper d [c]) cur k acc) \<subseteq> set out"
      using section_loop_keeps by simp
    with True section_entry_line [of k n d "upper d [c]" cur acc] show ?thesis by blast
  next
    case False
    with 3 show ?thesis by simp
  qed
qed simp_all

lemma sublist_join: "x \<in> set xs \<Longrightarrow> sublist x (join sep xs)"
proof (induction sep xs rule: join.induct)
  case (3 sep x' y ys)
  then show ?case
    by (auto simp: sublist_append intro: sublist_appendI)
qed simp_all

lemma sublist_middle: "sublist (a @ x @ b) s \<Longrightarrow> sublist x s"
proof -
  assume "sublist (a @ x @ b) s"
  then obtain ps ss where "s = ps @ (a @ x @ b) @ ss" unfolding sublist_def by blast
  then have "s = (ps @ a) @ x @ (b @ ss)" by simp
  then show "sublist x s" unfolding sublist_def by blast
qed

lemma generate_links:
  assumes "generate_alphabetical_section d w = Inr new_section"
    and "n \<in> set (get_all_source_files d w)"
  shows "sublist (str ''['' @ n @ str ''](src/'' @ n @ str '')'') new_section"
proof -
  from assms(1) obtain out where
    l: "section_loop d (get_all_source_files d w) None 1
          [start_marker @ [10],
           str ''Below is a complete alphabetical listing of all C++ example files in this repository. '',
           str ''Each entry links to the source file with a brief description of its contents.'' @ [10]]
        = Inr out"
    and j: "new_section = join [10] out"
    by (auto simp: generate_alphabetical_section_def split: sum.splits)
  from section_loop_line [OF l assms(2)] obtain i where
    "str_nat i @ str ''. **['' @ n @ str ''](''  @ (str ''src/'' @ n) @ str '')**'' \<in> set out"
    by blast
  then have "sublist (str_nat i @ str ''. **['' @ n @ str ''](''  @ (str ''src/'' @ n) @ str '')**'')
      new_section"
    unfolding j by (rule sublist_join)
  moreover have "str_nat i @ str ''. **['' @ n @ str ''](''  @ (str ''src/'' @ n) @ str '')**''
      = (str_nat i @ str ''. **'') @ (str ''['' @ n @ str ''](src/'' @ n @ str '')'') @ str ''**''"
    by (simp add: str_def)
  ultimately show ?thesis by (simp only: sublist_middle)
qed

lemma sublist_wrap: "sublist x y \<Longrightarrow> sublist x (a @ y @ b)"
proof -
  assume "sublist x y"
  then obtain ps ss where "y = ps @ x @ ss" unfolding sublist_def by blast
  then have "a @ y @ b = (a @ ps) @ x @ (ss @ b)" by simp
  then show "sublist x (a @ y @ b)" unfolding sublist_def by blast
qed

lemma takeWhile_run:
  "\<forall>c \<in> set name. P c \<Longrightarrow> \<not> P x \<Longrightarrow> takeWhile P (name @ x # r) = name"
  by (induction name) auto

lemma dropWhile_run:
  "\<forall>c \<in> set name. P c \<Longrightarrow> \<not> P x \<Longrightarrow> dropWhile P (name @ x # r) = x # r"
  by (induction name) auto

lemma dot_not_word: "\<not> is_word d 46" and bracket_not_word: "\<not> is_word d 91"
  by (simp_all add: is_word_def)

lemma match_link_run:
  assumes "takeWhile (is_word d) cs = name" and "dropWhile (is_word d) cs = r" and "name \<noteq> []"
  shows "match_link d (91 # cs) =
      (if prefix (str ''.cpp]'') r then Some (name @ str ''.cpp'', drop 5 r)
       else if prefix (str ''.cppm]'') r then Some (name @ str ''.cppm'', drop 6 r)
       else None)"
  using assms by (simp add: match_link_def Let_def)

lemma match_link_cpp:
  assumes "name \<noteq> []" and "\<forall>c \<in> set name. is_word d c"
  shows "match_link d (91 # name @ 46 # 99 # 112 # 112 # 93 # rest) = Some (name @ str ''.cpp'', rest)"
  using match_link_run [OF takeWhile_run [OF assms(2) dot_not_word]
      dropWhile_run [OF assms(2) dot_not_word] assms(1), of "99 # 112 # 112 # 93 # rest"]
  by (simp add: str_def)

lemma match_link_cppm:
  assumes "name \<noteq> []" and "\<forall>c \<in> set name. is_word d c"
  shows "match_link d (91 # name @ 46 # 99 # 112 # 112 # 109 # 93 # rest)
           = Some (name @ str ''.cppm'', rest)"
  using match_link_run [OF takeWhile_run [OF assms(2) dot_not_word]
      dropWhile_run [OF assms(2) dot_not_word] assms(1), of "99 # 112 # 112 # 109 # 93 # rest"]
  by (simp add: str_def)

lemma match_link_wordy:
  assumes "wordy d g"
  shows "match_link d ([91] @ g @ [93] @ rest) = Some (g, rest)"
proof -
  from assms obtain name where n: "name \<noteq> []" "\<forall>c \<in> set name. is_word d c"
    and g: "g = name @ str ''.cpp'' \<or> g = name @ str ''.cppm''"
    unfolding wordy_def by blast
  from g show ?thesis
  proof
    assume "g = name @ str ''.cpp''"
    then show ?thesis using match_link_cpp [OF n, of rest] by (simp add: str_def)
  next
    assume "g = name @ str ''.cppm''"
    then show ?thesis using match_link_cppm [OF n, of rest] by (simp add: str_def)
  qed
qed

lemma match_link_shape:
  assumes "match_link d s = Some (g, rest)"
  shows "s = [91] @ g @ [93] @ rest" and "wordy d g"
proof -
  from assms obtain cs where s: "s = 91 # cs"
    by (auto simp: match_link_def split: list.splits if_splits)
  define name where "name = takeWhile (is_word d) cs"
  define r where "r = dropWhile (is_word d) cs"
  have cs: "cs = name @ r" by (simp add: name_def r_def)
  have w: "\<forall>c \<in> set name. is_word d c"
    unfolding name_def by (auto dest: set_takeWhileD)
  from assms s have ne: "name \<noteq> []"
    and c: "(prefix (str ''.cpp]'') r \<and> g = name @ str ''.cpp'' \<and> rest = drop 5 r)
          \<or> (prefix (str ''.cppm]'') r \<and> g = name @ str ''.cppm'' \<and> rest = drop 6 r)"
    by (auto simp: match_link_def Let_def name_def r_def split: if_splits)
  from c have "r = drop (length name) (g @ [93]) @ rest \<and> wordy d g"
    unfolding wordy_def using ne w
    by (auto simp: prefix_def str_def)
  then show "wordy d g" by simp
  from c show "s = [91] @ g @ [93] @ rest"
    by (auto simp: s cs prefix_def str_def)
qed

lemma sublist_skip: "x \<notin> set a \<Longrightarrow> sublist (x # p) (a @ b) \<Longrightarrow> sublist (x # p) b"
  by (induction a) (auto simp: sublist_Cons_right)

lemma wordy_no_bracket: "wordy d g \<Longrightarrow> 91 \<notin> set (g @ [93])"
  unfolding wordy_def using bracket_not_word [of d] by (auto simp: str_def)

lemma findall_finds:
  "wordy d g \<Longrightarrow> sublist ([91] @ g @ [93]) s \<Longrightarrow> g \<in> set (findall d s)"
proof (induction d s rule: findall.induct)
  case (1 d)
  then show ?case by simp
next
  case (2 d c cs)
  from 2(4) have occ: "prefix (91 # g @ [93]) (c # cs) \<or> sublist (91 # g @ [93]) cs"
    by (simp add: sublist_Cons_right)
  show ?case
  proof (cases "match_link d (c # cs)")
    case None
    have "\<not> prefix (91 # g @ [93]) (c # cs)"
    proof
      assume "prefix (91 # g @ [93]) (c # cs)"
      then obtain rest where "c # cs = [91] @ g @ [93] @ rest" by (auto simp: prefix_def)
      with match_link_wordy [OF 2(3), of rest] None show False by simp
    qed
    with occ have "sublist ([91] @ g @ [93]) cs" by auto
    with 2(1) [OF None 2(3)] None show ?thesis by simp
  next
    case (Some m)
    obtain g' rest where m: "m = (g', rest)" by (cases m)
    note s = match_link_shape [OF Some [unfolded m]]
    from occ show ?thesis
    proof
      assume "prefix (91 # g @ [93]) (c # cs)"
      then obtain r where "c # cs = [91] @ g @ [93] @ r" by (auto simp: prefix_def)
      with match_link_wordy [OF 2(3), of r] Some m have "g' = g" by simp
      with Some m show ?thesis by simp
    next
      assume a: "sublist (91 # g @ [93]) cs"
      from s(1) have cs: "cs = (g' @ [93]) @ rest" by simp
      from wordy_no_bracket [OF s(2)] a have "sublist (91 # g @ [93]) rest"
        unfolding cs by (rule sublist_skip)
      then have "g \<in> set (findall d rest)"
        using 2(2) [OF Some m [symmetric] 2(3)] by simp
      with Some m show ?thesis by simp
    qed
  qed
qed

lemma findall_found:
  "g \<in> set (findall d s) \<Longrightarrow> wordy d g \<and> sublist ([91] @ g @ [93]) s"
proof (induction d s rule: findall.induct)
  case (1 d)
  then show ?case by simp
next
  case (2 d c cs)
  show ?case
  proof (cases "match_link d (c # cs)")
    case None
    with 2 have "wordy d g \<and> sublist ([91] @ g @ [93]) cs" by simp
    then show ?thesis by (auto simp: sublist_Cons_right)
  next
    case (Some m)
    obtain g' rest where m: "m = (g', rest)" by (cases m)
    note s = match_link_shape [OF Some [unfolded m]]
    from 2(3) Some m have "g = g' \<or> g \<in> set (findall d rest)" by simp
    then show ?thesis
    proof
      assume "g = g'"
      with s have "wordy d g" and "c # cs = [] @ ([91] @ g @ [93]) @ rest" by simp_all
      then show ?thesis unfolding sublist_def by blast
    next
      assume "g \<in> set (findall d rest)"
      from 2(2) [OF Some m [symmetric] this]
      have w: "wordy d g" and r: "sublist ([91] @ g @ [93]) rest" by simp_all
      from sublist_wrap [OF r, of "[91] @ g' @ [93]" "[]"]
      have "sublist ([91] @ g @ [93]) ([91] @ g' @ [93] @ rest)" by simp
      with s(1) w show ?thesis by simp
    qed
  qed
qed

lemma findall_iff:
  "g \<in> set (findall d s) \<longleftrightarrow> wordy d g \<and> sublist ([91] @ g @ [93]) s"
proof
  assume "g \<in> set (findall d s)"
  then show "wordy d g \<and> sublist ([91] @ g @ [93]) s" by (rule findall_found)
next
  assume "wordy d g \<and> sublist ([91] @ g @ [93]) s"
  then show "g \<in> set (findall d s)" by (simp add: findall_finds)
qed

subsection \<open>Reading and writing\<close>

lemma universal_newlines_id: "13 \<notin> set t \<Longrightarrow> universal_newlines t = t"
  by (induction t rule: universal_newlines.induct) auto


lemma write_newlines_append:
  "write_newlines d (a @ b) = write_newlines d a @ write_newlines d b"
  by (simp add: write_newlines_def)

lemma encodable_append: "encodable (a @ b) \<longleftrightarrow> encodable a \<and> encodable b"
  by (simp add: encodable_def)



lemma read_text_Inr:
  "read_text fo = Inr content \<longleftrightarrow>
     (\<exists>f t. fo = Some f \<and> readable f \<and> stored f = Text t \<and> content = universal_newlines t)"
  by (auto simp: read_text_def split: option.splits stored.splits)

lemma read_text_example:
  "13 \<notin> set t \<Longrightarrow> read_text (readme (example_world names t)) = Inr t"
  by (simp add: read_text_def example_world_def universal_newlines_id)

subsection \<open>update_readme\<close>

lemma update_readme_read_error:
  "read_text (readme w) = Inl e \<Longrightarrow>
     update_readme d w = (False, w\<lparr>stderr := stderr w @ [UpdateError e]\<rparr>)"
  by (simp add: update_readme_def)

lemma update_readme_missing:
  assumes "read_text (readme w) = Inr content"
    and "\<not> sublist start_marker content \<or> \<not> sublist end_marker content"
  shows "update_readme d w = (False, w\<lparr>stderr := stderr w @ [MarkersNotFound]\<rparr>)"
  using assms by (auto simp: update_readme_def find_missing)

lemma update_readme_write:
  assumes "read_text (readme w) = Inr content"
    and "first_at content start_marker s" and "first_at content end_marker e"
    and "generate_alphabetical_section d w = Inr new_section"
  shows "update_readme d w =
     (case write_text d (root_writable w) (readme w)
             (take s content @ new_section @ ([10] @ str ''---'' @ [10, 10]) @ drop e content) of
        (Some ex, f) \<Rightarrow> (False, w\<lparr>readme := f, stderr := stderr w @ [UpdateError ex]\<rparr>)
      | (None, f) \<Rightarrow>
          (case stdout_raises d ReadmeWritten of
             Some ex \<Rightarrow> (False, w\<lparr>readme := f, stderr := stderr w @ [UpdateError ex]\<rparr>)
           | None \<Rightarrow> (True, w\<lparr>readme := f, reports := reports w @ [ReadmeWritten]\<rparr>)))"
proof -
  from assms(2,3) have "find content start_marker = int s" "find content end_marker = int e"
    by (simp_all add: first_at_find)
  with assms(1,4) show ?thesis
    by (simp add: update_readme_def slice_to_def slice_from_def print_stdout_def
        split: prod.splits option.splits)
qed

lemma update_readme_file:
  assumes "read_text (readme w) = Inr content"
    and "first_at content start_marker s" and "first_at content end_marker e"
    and "generate_alphabetical_section d w = Inr new_section"
    and "readme w = Some f" and "writable f"
    and "encodable (take s content @ new_section @ ([10] @ str ''---'' @ [10, 10]) @ drop e content)"
  shows "readme (snd (update_readme d w)) =
     Some (f\<lparr>stored := Text (write_newlines d
        (take s content @ new_section @ ([10] @ str ''---'' @ [10, 10]) @ drop e content))\<rparr>)"
    and "fst (update_readme d w) \<longleftrightarrow> stdout_raises d ReadmeWritten = None"
  unfolding update_readme_write [OF assms(1-4)] using assms(5-7)
  by (simp_all add: write_text_def split: option.splits)

lemma update_readme_written:
  assumes "read_text (readme w) = Inr content"
    and "first_at content start_marker s" and "first_at content end_marker e"
    and "generate_alphabetical_section d w = Inr new_section"
    and "readme w = Some f" and "writable f"
    and "encodable (take s content @ new_section @ ([10] @ str ''---'' @ [10, 10]) @ drop e content)"
    and "stdout_raises d ReadmeWritten = None"
  shows "update_readme d w =
     (True, w\<lparr>readme := Some (f\<lparr>stored := Text (write_newlines d
        (take s content @ new_section @ ([10] @ str ''---'' @ [10, 10]) @ drop e content))\<rparr>),
              reports := reports w @ [ReadmeWritten]\<rparr>)"
  unfolding update_readme_write [OF assms(1-4)] using assms(5-8)
  by (simp add: write_text_def)


lemma update_readme_unwritable:
  assumes "read_text (readme w) = Inr content"
    and "first_at content start_marker s" and "first_at content end_marker e"
    and "readme w = Some f" and "\<not> writable f"
  shows "update_readme d w = (False, w\<lparr>stderr := stderr w @ [UpdateError PermissionError]\<rparr>)"
proof -
  obtain new_section where g: "generate_alphabetical_section d w = Inr new_section"
    using generate_total by blast
  have "w\<lparr>readme := Some f, stderr := stderr w @ [UpdateError PermissionError]\<rparr>
      = w\<lparr>stderr := stderr w @ [UpdateError PermissionError]\<rparr>"
    using assms(4) by simp
  then show ?thesis
    unfolding update_readme_write [OF assms(1-3) g] using assms(4,5)
    by (simp add: write_text_def)
qed



lemma generate_empty:
  assumes "src_dir w = Some []"
  shows "generate_alphabetical_section d w =
     Inr (start_marker @ [10, 10]
          @ str ''Below is a complete alphabetical listing of all C++ example files in this repository. ''
          @ [10]
          @ str ''Each entry links to the source file with a brief description of its contents.''
          @ [10])"
  using assms
  by (simp add: generate_alphabetical_section_def get_all_source_files_def glob_def)

lemma encodable_markers: "encodable start_marker" "encodable end_marker"
  "encodable ([10] @ str ''---'' @ [10, 10])"
  by (simp_all add: encodable_def start_marker_def end_marker_def str_def)

lemma encodable_header:
  "encodable (start_marker @ [10, 10]
          @ str ''Below is a complete alphabetical listing of all C++ example files in this repository. ''
          @ [10]
          @ str ''Each entry links to the source file with a brief description of its contents.''
          @ [10])"
  by (simp add: encodable_def start_marker_def str_def)




lemma find_in_order:
  "find (start_marker @ [10] @ end_marker) start_marker = 0"
  "find (start_marker @ [10] @ end_marker) end_marker = 52"
  "13 \<notin> set (start_marker @ [10] @ end_marker)"
  by (simp_all add: find_def start_marker_def end_marker_def str_def)




lemma find_title:
  "find (str ''# Title'') start_marker = - 1"
  "13 \<notin> set (str ''# Title'')"
  by (simp_all add: find_def start_marker_def str_def)

















subsection \<open>check_new_files\<close>

lemma check_new_files_world:
  "read_text (readme w) = Inr content \<Longrightarrow> snd (check_new_files d w) = w"
  by (simp add: check_new_files_def Let_def)

lemma check_new_files_result:
  assumes "read_text (readme w) = Inr content"
  shows "sorted (fst (check_new_files d w))"
    and "distinct (fst (check_new_files d w))"
    and "set (fst (check_new_files d w)) =
           set (get_all_source_files d w) - set (findall d content)"
  using assms by (auto simp: check_new_files_def Let_def)

lemma check_new_files_unread:
  "read_text (readme w) = Inl e \<Longrightarrow>
     check_new_files d w = ([], w\<lparr>stderr := stderr w @ [CheckWarning e]\<rparr>)"
  by (simp add: check_new_files_def Let_def)

text \<open>
  Claim C7 at a directory that holds \<open>a-b.cpp\<close> and a README that links it as
  \<open>[a-b.cpp](src/a-b.cpp)\<close>: the name is referenced in brackets in the README, and
  \<open>check_new_files\<close> still returns it as new, because \<open>\w+\<close> does not match the hyphen.
\<close>

theorem check_new_files_hyphenated_name:
  "sublist (str ''[a-b.cpp]'') (str ''1. **[a-b.cpp](src/a-b.cpp)**'')
   \<and> fst (check_new_files d
            (example_world [str ''a-b.cpp''] (str ''1. **[a-b.cpp](src/a-b.cpp)**'')))
       = [str ''a-b.cpp'']"
proof -
  have "find (str ''1. **[a-b.cpp](src/a-b.cpp)**'') (str ''[a-b.cpp]'') = 5"
    by (simp add: find_def str_def)
  then have s: "sublist (str ''[a-b.cpp]'') (str ''1. **[a-b.cpp](src/a-b.cpp)**'')"
    by (simp add: sublist_find)
  have f: "findall d (str ''1. **[a-b.cpp](src/a-b.cpp)**'') = []"
    by (simp add: str_def match_link_def is_word_def)
  have g: "get_all_source_files d (example_world [str ''a-b.cpp''] c) = [str ''a-b.cpp'']" for c
    by (simp add: get_all_source_files_def glob_def example_world_def endswith_def str_def)
  have "13 \<notin> set (str ''1. **[a-b.cpp](src/a-b.cpp)**'')" by (simp add: str_def)
  then have r: "read_text (readme (example_world [str ''a-b.cpp'']
      (str ''1. **[a-b.cpp](src/a-b.cpp)**''))) = Inr (str ''1. **[a-b.cpp](src/a-b.cpp)**'')"
    by (rule read_text_example)
  have "fst (check_new_files d
            (example_world [str ''a-b.cpp''] (str ''1. **[a-b.cpp](src/a-b.cpp)**'')))
       = [str ''a-b.cpp'']"
    unfolding check_new_files_def Let_def g r
    by (simp add: f)
  with s show ?thesis by simp
qed

lemma check_new_files_set:
  assumes "read_text (readme w) = Inr content"
  shows "set (fst (check_new_files d w)) =
           {n \<in> set (get_all_source_files d w).
              \<not> (wordy d n \<and> sublist ([91] @ n @ [93]) content)}"
proof -
  have "set (fst (check_new_files d w)) =
      set (get_all_source_files d w) - set (findall d content)"
    by (rule check_new_files_result(3) [OF assms])
  also have "\<dots> = {n \<in> set (get_all_source_files d w). n \<notin> set (findall d content)}"
    by blast
  finally show ?thesis by (simp only: findall_iff)
qed

lemma update_readme_success:
  assumes "fst (update_readme d w)"
  shows "\<exists>content s e new_section f.
           read_text (readme w) = Inr content \<and>
           first_at content start_marker s \<and> first_at content end_marker e \<and>
           generate_alphabetical_section d w = Inr new_section \<and>
           readme w = Some f \<and> readable f \<and>
           update_readme d w =
             (True, w\<lparr>readme := Some (f\<lparr>stored := Text (write_newlines d
                (take s content @ new_section @ ([10] @ str ''---'' @ [10, 10])
                 @ drop e content))\<rparr>),
                      reports := reports w @ [ReadmeWritten]\<rparr>)"
proof (cases "read_text (readme w)")
  case (Inl e)
  with assms show ?thesis by (simp add: update_readme_read_error)
next
  case (Inr content)
  then obtain f where f: "readme w = Some f" "readable f"
    by (auto simp: read_text_Inr)
  show ?thesis
  proof (cases "sublist start_marker content \<and> sublist end_marker content")
    case False
    with update_readme_missing [OF Inr, of d] assms show ?thesis by auto
  next
    case True
    then obtain s e where se: "first_at content start_marker s" "first_at content end_marker e"
      by (auto simp: sublist_first_at)
    obtain new_section where g: "generate_alphabetical_section d w = Inr new_section"
      using generate_total by blast
    define new_content where
      "new_content = take s content @ new_section @ ([10] @ str ''---'' @ [10, 10]) @ drop e content"
    note u = update_readme_write [OF Inr se g, folded new_content_def]
    from assms have "update_readme d w =
        (True, w\<lparr>readme := Some (f\<lparr>stored := Text (write_newlines d new_content)\<rparr>),
                 reports := reports w @ [ReadmeWritten]\<rparr>)"
      unfolding u using f
      by (auto simp: write_text_def split: if_splits option.splits)
    with Inr se g f show ?thesis unfolding new_content_def by blast
  qed
qed

lemma write_newlines_keeps:
  assumes "sublist x y" and "10 \<notin> set x"
  shows "sublist x (write_newlines d y)"
proof -
  from assms(1) obtain ps ss where "y = ps @ x @ ss" unfolding sublist_def by blast
  moreover from assms(2) have "write_newlines d x = x"
    by (induction x) (auto simp: write_newlines_def)
  ultimately have "write_newlines d y = write_newlines d ps @ x @ write_newlines d ss"
    by (simp add: write_newlines_append)
  then show ?thesis unfolding sublist_def by blast
qed

lemma listed_file_still_new:
  assumes "src_dir w = Some names" and "str ''a-b.cpp'' \<in> set names"
    and "update_readme d w = (True, w')"
  shows "\<exists>f t. readme w' = Some f \<and> stored f = Text t
           \<and> sublist (str ''[a-b.cpp](src/a-b.cpp)'') t
           \<and> str ''a-b.cpp'' \<in> set (fst (check_new_files d w'))"
proof -
  from assms(3) have "fst (update_readme d w)" by simp
  from update_readme_success [OF this]
  obtain c s e new_section f where g: "generate_alphabetical_section d w = Inr new_section"
    and f: "readable f"
    and u: "update_readme d w =
             (True, w\<lparr>readme := Some (f\<lparr>stored := Text (write_newlines d
                (take s c @ new_section @ ([10] @ str ''---'' @ [10, 10]) @ drop e c))\<rparr>),
                      reports := reports w @ [ReadmeWritten]\<rparr>)"
    by blast
  define t where "t = write_newlines d
      (take s c @ new_section @ ([10] @ str ''---'' @ [10, 10]) @ drop e c)"
  from u assms(3) have w': "w' = w\<lparr>readme := Some (f\<lparr>stored := Text t\<rparr>),
      reports := reports w @ [ReadmeWritten]\<rparr>"
    by (simp add: t_def)
  have src: "str ''a-b.cpp'' \<in> set (get_all_source_files d w)"
    using assms(1,2) by (simp add: source_files_set) (simp add: endswith_def str_def)
  from generate_links [OF g src]
  have "sublist (str ''[a-b.cpp](src/a-b.cpp)'') new_section"
    by (simp add: str_def)
  then have "sublist (str ''[a-b.cpp](src/a-b.cpp)'')
      (take s c @ new_section @ ([10] @ str ''---'' @ [10, 10]) @ drop e c)"
    by (rule sublist_wrap)
  moreover have "10 \<notin> set (str ''[a-b.cpp](src/a-b.cpp)'')" by (simp add: str_def)
  ultimately have l: "sublist (str ''[a-b.cpp](src/a-b.cpp)'') t"
    unfolding t_def by (rule write_newlines_keeps)
  have same: "get_all_source_files d w' = get_all_source_files d w"
    by (simp add: w' get_all_source_files_def glob_def)
  have r': "readme w' = Some (f\<lparr>stored := Text t\<rparr>)" by (simp add: w')
  then have "read_text (readme w') = Inr (universal_newlines t)"
    using f by (simp add: read_text_def)
  from check_new_files_result(3) [OF this, of d] src same hyphen_not_found
  have "str ''a-b.cpp'' \<in> set (fst (check_new_files d w'))" by simp
  with r' l show ?thesis by simp
qed

subsection \<open>main\<close>

lemma generate_cong:
  "src_dir w' = src_dir w \<Longrightarrow>
     generate_alphabetical_section d w' = generate_alphabetical_section d w"
  by (simp add: generate_alphabetical_section_def get_all_source_files_def glob_def)

lemma update_readme_cong:
  assumes "readme w' = readme w" and "src_dir w' = src_dir w"
    and "root_writable w' = root_writable w"
  shows "fst (update_readme d w') = fst (update_readme d w)"
  unfolding update_readme_def generate_cong [OF assms(2)] assms(1,3) Let_def print_stdout_def
  by (simp split: sum.splits prod.splits option.splits)

lemma update_readme_keeps:
  "src_dir (snd (update_readme d w)) = src_dir w"
  "template (snd (update_readme d w)) = template w"
  "root_writable (snd (update_readme d w)) = root_writable w"
  unfolding update_readme_def Let_def print_stdout_def
  by (simp_all split: sum.splits prod.splits option.splits)

lemma check_new_files_cong:
  assumes "readme w' = readme w" and "src_dir w' = src_dir w"
  shows "fst (check_new_files d w') = fst (check_new_files d w)"
  unfolding check_new_files_def Let_def assms(1)
  by (simp add: get_all_source_files_def glob_def assms(2) split: sum.splits)

lemma check_new_files_keeps:
  "src_dir (snd (check_new_files d w)) = src_dir w"
  "readme (snd (check_new_files d w)) = readme w"
  "template (snd (check_new_files d w)) = template w"
  "root_writable (snd (check_new_files d w)) = root_writable w"
  unfolding check_new_files_def Let_def
  by (simp_all split: sum.splits)

lemma main_missing:
  assumes "stdout_raises d Banner = None"
  shows "src_dir w = None \<Longrightarrow> fst (main d w) = Inr 1"
    and "readme w = None \<Longrightarrow> fst (main d w) = Inr 1"
  using assms by (simp_all add: main_def print_stdout_def)

lemma main_present:
  assumes p: "\<And>r. stdout_raises d r = None"
    and s: "src_dir w \<noteq> None" and r: "readme w \<noteq> None"
  shows "fst (main d w) =
     (if \<not> fst (update_readme d w) then Inr 1
      else if fst (check_new_files d w) = [] then Inr 0
      else (case fst (write_text d (root_writable w) (template w)
                        (generate_index_template d (fst (check_new_files d w)))) of
              Some e \<Rightarrow> Inl e
            | None \<Rightarrow> Inr 0))"
proof -
  define w0 where "w0 = w\<lparr>reports := reports w @ [Banner]\<rparr>"
  obtain new_files w1 where c: "check_new_files d w0 = (new_files, w1)"
    by (cases "check_new_files d w0")
  define w3 where "w3 = w1\<lparr>reports := reports w1 @ [NewFiles new_files, Updating]\<rparr>"
  obtain updated w4 where u: "update_readme d w3 = (updated, w4)"
    by (cases "update_readme d w3")
  define w5 where "w5 = w4\<lparr>reports := reports w4 @ [UpdateSucceeded]\<rparr>"
  have k1: "src_dir w1 = src_dir w" "readme w1 = readme w" "template w1 = template w"
    "root_writable w1 = root_writable w"
    using check_new_files_keeps [of d w0] unfolding c snd_conv by (simp_all add: w0_def)
  have "fst (check_new_files d w0) = fst (check_new_files d w)"
    by (rule check_new_files_cong) (simp_all add: w0_def)
  then have n: "new_files = fst (check_new_files d w)"
    unfolding c fst_conv .
  have "fst (update_readme d w3) = fst (update_readme d w)"
    by (rule update_readme_cong) (simp_all add: w3_def k1)
  then have up: "updated = fst (update_readme d w)" unfolding u fst_conv .
  have k4: "template w4 = template w" "root_writable w4 = root_writable w"
    using update_readme_keeps(2,3) [of d w3] unfolding u snd_conv by (simp_all add: w3_def k1)
  have m: "main d w =
      (if \<not> updated then (Inr 1, w4\<lparr>reports := reports w4 @ [UpdateFailed]\<rparr>)
       else if new_files \<noteq> []
            then (case write_template d new_files w5 of
                    (Some e, w6) \<Rightarrow> (Inl e, w6)
                  | (None, w6) \<Rightarrow> summary d new_files w6)
            else summary d new_files w5)"
  proof -
    from s r obtain names f where "src_dir w = Some names" "readme w = Some f"
      by auto
    then have k0: "src_dir w0 = Some names" "readme w0 = Some f"
      by (simp_all add: w0_def)
    have "print_stdout d Banner w = Inr w0"
      by (simp add: print_stdout_def p w0_def)
    moreover have "print_stdout d (NewFiles new_files) w1
        = Inr (w1\<lparr>reports := reports w1 @ [NewFiles new_files]\<rparr>)"
      by (simp add: print_stdout_def p)
    moreover have "print_stdout d Updating (w1\<lparr>reports := reports w1 @ [NewFiles new_files]\<rparr>)
        = Inr w3"
      by (simp add: print_stdout_def p w3_def)
    moreover have "print_stdout d UpdateFailed w4
        = Inr (w4\<lparr>reports := reports w4 @ [UpdateFailed]\<rparr>)"
      by (simp add: print_stdout_def p)
    moreover have "print_stdout d UpdateSucceeded w4 = Inr w5"
      by (simp add: print_stdout_def p w5_def)
    ultimately show ?thesis
      unfolding main_def by (simp add: k0 c u)
  qed
  have sm: "fst (summary d nf x) = Inr 0" for x nf
    by (simp add: summary_def print_stdout_def p)
  have wt: "fst (case write_template d new_files w5 of
                    (Some e, w6) \<Rightarrow> (Inl e, w6)
                  | (None, w6) \<Rightarrow> summary d new_files w6)
      = (case fst (write_text d (root_writable w) (template w)
                        (generate_index_template d new_files)) of
              Some e \<Rightarrow> Inl e
            | None \<Rightarrow> Inr 0)"
    by (simp add: write_template_def print_stdout_def p Let_def w5_def k4 sm
        split: prod.splits option.splits)
  show ?thesis
    unfolding m by (simp add: wt sm up [symmetric] n [symmetric])
qed

lemma update_readme_fails:
  "\<not> fst (update_readme d w) \<longleftrightarrow>
       (\<exists>e. read_text (readme w) = Inl e)
     \<or> (\<exists>content. read_text (readme w) = Inr content \<and>
          (\<not> sublist start_marker content \<or> \<not> sublist end_marker content))
     \<or> (\<exists>content s e new_section ex.
          read_text (readme w) = Inr content \<and>
          first_at content start_marker s \<and> first_at content end_marker e \<and>
          generate_alphabetical_section d w = Inr new_section \<and>
          (fst (write_text d (root_writable w) (readme w)
                 (take s content @ new_section @ ([10] @ str ''---'' @ [10, 10])
                  @ drop e content)) = Some ex
           \<or> fst (write_text d (root_writable w) (readme w)
                 (take s content @ new_section @ ([10] @ str ''---'' @ [10, 10])
                  @ drop e content)) = None
             \<and> stdout_raises d ReadmeWritten = Some ex))"
  (is "?l \<longleftrightarrow> ?a \<or> ?b \<or> ?c")
proof (cases "read_text (readme w)")
  case (Inl e)
  then show ?thesis by (simp add: update_readme_read_error)
next
  case (Inr content)
  show ?thesis
  proof (cases "sublist start_marker content \<and> sublist end_marker content")
    case False
    with update_readme_missing [OF Inr, of d] Inr show ?thesis by auto
  next
    case True
    then obtain s e where se: "first_at content start_marker s" "first_at content end_marker e"
      by (auto simp: sublist_first_at)
    obtain new_section where g: "generate_alphabetical_section d w = Inr new_section"
      using generate_total by blast
    define new_content where
      "new_content = take s content @ new_section @ ([10] @ str ''---'' @ [10, 10]) @ drop e content"
    note u = update_readme_write [OF Inr se g, folded new_content_def]
    have l: "?l \<longleftrightarrow> (\<exists>ex. fst (write_text d (root_writable w) (readme w) new_content) = Some ex
        \<or> fst (write_text d (root_writable w) (readme w) new_content) = None
          \<and> stdout_raises d ReadmeWritten = Some ex)"
      unfolding u
      by (cases "write_text d (root_writable w) (readme w) new_content";
          cases "fst (write_text d (root_writable w) (readme w) new_content)";
          cases "stdout_raises d ReadmeWritten") auto
    have uniq: "s' = s \<and> e' = e"
      if "first_at content start_marker s'" "first_at content end_marker e'" for s' e'
      using that se by (simp add: first_at_find)
    have "?c \<longleftrightarrow> (\<exists>ex. fst (write_text d (root_writable w) (readme w) new_content) = Some ex
        \<or> fst (write_text d (root_writable w) (readme w) new_content) = None
          \<and> stdout_raises d ReadmeWritten = Some ex)"
    proof
      assume ?c
      then obtain content' s' e' new_section' ex where
        a: "read_text (readme w) = Inr content'" "first_at content' start_marker s'"
          "first_at content' end_marker e'"
          "generate_alphabetical_section d w = Inr new_section'"
          "fst (write_text d (root_writable w) (readme w)
                 (take s' content' @ new_section' @ ([10] @ str ''---'' @ [10, 10])
                  @ drop e' content')) = Some ex
           \<or> fst (write_text d (root_writable w) (readme w)
                 (take s' content' @ new_section' @ ([10] @ str ''---'' @ [10, 10])
                  @ drop e' content')) = None
             \<and> stdout_raises d ReadmeWritten = Some ex"
        by blast
      from a(1) Inr have c': "content' = content" by simp
      with a(2,3) uniq have "s' = s" "e' = e" by simp_all
      moreover from a(4) g have "new_section' = new_section" by simp
      ultimately show "\<exists>ex. fst (write_text d (root_writable w) (readme w) new_content) = Some ex
        \<or> fst (write_text d (root_writable w) (readme w) new_content) = None
          \<and> stdout_raises d ReadmeWritten = Some ex"
        using a(5) c' unfolding new_content_def by blast
    next
      assume "\<exists>ex. fst (write_text d (root_writable w) (readme w) new_content) = Some ex
        \<or> fst (write_text d (root_writable w) (readme w) new_content) = None
          \<and> stdout_raises d ReadmeWritten = Some ex"
      with Inr se g show ?c unfolding new_content_def by blast
    qed
    with l Inr True show ?thesis by auto
  qed
qed

lemma check_new_files_empty: "src_dir w = Some [] \<Longrightarrow> fst (check_new_files d w) = []"
  by (simp add: check_new_files_def Let_def get_all_source_files_def glob_def split: sum.splits)

lemma ordered_update:
  "fst (update_readme example_deps (example_world [] (start_marker @ [10] @ end_marker)))"
proof -
  define c where "c = start_marker @ [10] @ end_marker"
  define w where "w = example_world [] c"
  have r: "read_text (readme w) = Inr c"
    unfolding w_def c_def by (rule read_text_example) (rule find_in_order)
  have fa: "first_at c start_marker 0" "first_at c end_marker 52"
    unfolding c_def by (simp_all only: first_at_find find_in_order)
  obtain new_section where g: "generate_alphabetical_section example_deps w = Inr new_section"
    and enc: "encodable new_section"
    using generate_empty [of w example_deps] encodable_header
    by (simp add: w_def example_world_def)
  have rf: "readme w = Some \<lparr>stored = Text c, readable = True, writable = True\<rparr>"
    by (simp add: w_def example_world_def)
  have "encodable (drop 52 c)"
    by (simp add: c_def start_marker_def end_marker_def str_def encodable_def)
  with enc encodable_markers(3)
  have "encodable (take 0 c @ new_section @ ([10] @ str ''---'' @ [10, 10]) @ drop 52 c)"
    by (simp add: encodable_append encodable_def)
  from update_readme_file(2) [OF r fa g rf _ this]
  show ?thesis unfolding w_def c_def by (simp add: example_deps_def)
qed

text \<open>
  Claim C5 as stated fails: \<open>main\<close> also returns 1 when \<open>src\<close> and \<open>README.md\<close> exist and
  the README holds both markers. Here the README is read-only: \<open>update_readme\<close> reads
  it and finds the markers, \<open>open\<close> for writing raises \<open>PermissionError\<close>, which is caught,
  and \<open>update_readme\<close> returns \<open>False\<close>. The same happens with a README whose bytes are not
  UTF-8, where the read raises.
\<close>

theorem main_returns_one_with_markers:
  "read_text (Some \<lparr>stored = Text (start_marker @ [10] @ end_marker),
                     readable = True, writable = False\<rparr>)
     = Inr (start_marker @ [10] @ end_marker)
   \<and> sublist start_marker (start_marker @ [10] @ end_marker)
   \<and> sublist end_marker (start_marker @ [10] @ end_marker)
   \<and> fst (main example_deps
        \<lparr>src_dir = Some [],
         readme = Some \<lparr>stored = Text (start_marker @ [10] @ end_marker),
                        readable = True, writable = False\<rparr>,
         template = None, root_writable = True, reports = [], stderr = []\<rparr>) = Inr 1
   \<and> fst (main example_deps
        \<lparr>src_dir = Some [],
         readme = Some \<lparr>stored = Undecodable, readable = True, writable = True\<rparr>,
         template = None, root_writable = True, reports = [], stderr = []\<rparr>) = Inr 1"
proof -
  define c where "c = start_marker @ [10] @ end_marker"
  define f where "f = \<lparr>stored = Text c, readable = True, writable = False\<rparr>"
  define w where "w = \<lparr>src_dir = Some [], readme = Some f,
         template = None, root_writable = True, reports = [], stderr = []\<rparr>"
  define w' where "w' = \<lparr>src_dir = Some [],
         readme = Some \<lparr>stored = Undecodable, readable = True, writable = True\<rparr>,
         template = None, root_writable = True, reports = [], stderr = []\<rparr>"
  have p: "stdout_raises example_deps r = None" for r by (simp add: example_deps_def)
  have "13 \<notin> set c" unfolding c_def by (rule find_in_order)
  then have r: "read_text (Some f) = Inr c"
    by (simp add: read_text_def f_def universal_newlines_id)
  then have rw: "read_text (readme w) = Inr c" by (simp add: w_def)
  have s: "sublist start_marker c" "sublist end_marker c"
    unfolding c_def by (simp_all only: sublist_find find_in_order)
  have fa: "first_at c start_marker 0" "first_at c end_marker 52"
    unfolding c_def by (simp_all only: first_at_find find_in_order)
  have "readme w = Some f" "\<not> writable f" by (simp_all add: w_def f_def)
  from update_readme_unwritable [OF rw fa this]
  have "\<not> fst (update_readme example_deps w)" by simp
  moreover have "src_dir w \<noteq> None" "readme w \<noteq> None" by (simp_all add: w_def)
  ultimately have m: "fst (main example_deps w) = Inr 1"
    using main_present [of example_deps w] p by simp
  have "read_text (readme w') = Inl UnicodeDecodeError" by (simp add: w'_def read_text_def)
  then have "\<not> fst (update_readme example_deps w')" by (simp add: update_readme_read_error)
  moreover have "src_dir w' \<noteq> None" "readme w' \<noteq> None" by (simp_all add: w'_def)
  ultimately have m': "fst (main example_deps w') = Inr 1"
    using main_present [of example_deps w'] p by simp
  from r s m m' show ?thesis unfolding w_def w'_def f_def c_def by simp
qed

text \<open>
  Claim C5, amended. Where no \<open>print\<close> to standard output raises: \<open>main\<close> returns 1
  exactly when the directory \<open>src\<close> does not exist, \<open>README.md\<close> does not exist, or
  \<open>update_readme\<close> fails. \<open>update_readme\<close> fails exactly when reading the README raises,
  when a marker is absent from the text read, or, with both markers present, when
  writing the README (or the \<open>print\<close> after it) raises. When \<open>main\<close> does not return 1 it
  returns 0, unless there are new files and writing \<open>INDEX_UPDATE_TEMPLATE.txt\<close> raises:
  this exception is not caught and leaves \<open>main\<close>.
\<close>

theorem main_exit_code:
  assumes "\<And>r. stdout_raises d r = None"
  shows
    "(fst (main d w) = Inr 1 \<longleftrightarrow>
        src_dir w = None \<or> readme w = None \<or> \<not> fst (update_readme d w))
     \<and> (\<not> fst (update_readme d w) \<longleftrightarrow>
          (\<exists>e. read_text (readme w) = Inl e)
        \<or> (\<exists>content. read_text (readme w) = Inr content \<and>
             (\<not> sublist start_marker content \<or> \<not> sublist end_marker content))
        \<or> (\<exists>content s e new_section ex.
             read_text (readme w) = Inr content \<and>
             first_at content start_marker s \<and> first_at content end_marker e \<and>
             generate_alphabetical_section d w = Inr new_section \<and>
             (fst (write_text d (root_writable w) (readme w)
                    (take s content @ new_section @ ([10] @ str ''---'' @ [10, 10])
                     @ drop e content)) = Some ex
              \<or> fst (write_text d (root_writable w) (readme w)
                    (take s content @ new_section @ ([10] @ str ''---'' @ [10, 10])
                     @ drop e content)) = None
                \<and> stdout_raises d ReadmeWritten = Some ex)))
     \<and> (fst (main d w) \<noteq> Inr 1 \<longrightarrow>
          fst (main d w) =
            (if fst (check_new_files d w) = [] then Inr 0
             else (case fst (write_text d (root_writable w) (template w)
                               (generate_index_template d (fst (check_new_files d w)))) of
                     Some e \<Rightarrow> Inl e
                   | None \<Rightarrow> Inr 0)))"
proof (intro conjI)
  have b: "stdout_raises d Banner = None" by (rule assms)
  show "fst (main d w) = Inr 1 \<longleftrightarrow>
        src_dir w = None \<or> readme w = None \<or> \<not> fst (update_readme d w)"
  proof (cases "src_dir w = None \<or> readme w = None")
    case True
    with main_missing [OF b, of w] show ?thesis by auto
  next
    case False
    then have "src_dir w \<noteq> None" "readme w \<noteq> None" by simp_all
    from main_present [of d w, OF assms this] False
    show ?thesis by (simp split: option.splits)
  qed
  show "fst (main d w) \<noteq> Inr 1 \<longrightarrow>
          fst (main d w) =
            (if fst (check_new_files d w) = [] then Inr 0
             else (case fst (write_text d (root_writable w) (template w)
                               (generate_index_template d (fst (check_new_files d w)))) of
                     Some e \<Rightarrow> Inl e
                   | None \<Rightarrow> Inr 0))"
  proof (cases "src_dir w = None \<or> readme w = None")
    case True
    with main_missing [OF b, of w] show ?thesis by auto
  next
    case False
    then have "src_dir w \<noteq> None" "readme w \<noteq> None" by simp_all
    from main_present [of d w, OF assms this]
    show ?thesis by (simp split: option.splits)
  qed
qed (rule update_readme_fails)

theorem main_exit_code_witness:
  "(\<forall>r. stdout_raises example_deps r = None)
   \<and> fst (main example_deps (example_world [] (start_marker @ [10] @ end_marker))) = Inr 0
   \<and> fst (main example_deps (example_world [] (str ''# Title''))) = Inr 1
   \<and> fst (main example_deps
        ((example_world [] (start_marker @ [10] @ end_marker))\<lparr>src_dir := None\<rparr>)) = Inr 1
   \<and> fst (main example_deps
        ((example_world [] (start_marker @ [10] @ end_marker))\<lparr>readme := None\<rparr>)) = Inr 1"
proof -
  have p: "stdout_raises example_deps r = None" for r by (simp add: example_deps_def)
  note T = main_exit_code [of example_deps, OF p, THEN conjunct1]
  note U = main_exit_code [of example_deps, OF p, THEN conjunct2, THEN conjunct2]
  define w where "w = example_world [] (start_marker @ [10] @ end_marker)"
  have "src_dir w \<noteq> None" "readme w \<noteq> None" "fst (update_readme example_deps w)"
    unfolding w_def using ordered_update by (simp_all add: example_world_def)
  with T [of w] have "fst (main example_deps w) \<noteq> Inr 1" by blast
  moreover have "fst (check_new_files example_deps w) = []"
    by (rule check_new_files_empty) (simp add: w_def example_world_def)
  ultimately have a: "fst (main example_deps w) = Inr 0" using U [of w] by simp
  have "read_text (readme (example_world [] (str ''# Title''))) = Inr (str ''# Title'')"
    by (rule read_text_example) (rule find_title)
  moreover have "\<not> sublist start_marker (str ''# Title'')"
    by (simp only: sublist_find find_title)
  ultimately have "\<not> fst (update_readme example_deps (example_world [] (str ''# Title'')))"
    using update_readme_missing [of "example_world [] (str ''# Title'')" "str ''# Title''"
        example_deps]
    by simp
  with T [of "example_world [] (str ''# Title'')"]
  have b: "fst (main example_deps (example_world [] (str ''# Title''))) = Inr 1" by blast
  have "src_dir (w\<lparr>src_dir := None\<rparr>) = None" by simp
  with T [of "w\<lparr>src_dir := None\<rparr>"]
  have c: "fst (main example_deps (w\<lparr>src_dir := None\<rparr>)) = Inr 1" by blast
  have "readme (w\<lparr>readme := None\<rparr>) = None" by simp
  with T [of "w\<lparr>readme := None\<rparr>"]
  have d: "fst (main example_deps (w\<lparr>readme := None\<rparr>)) = Inr 1" by blast
  from p a b c d show ?thesis unfolding w_def by blast
qed

section \<open>Properties of the smoke test\<close>








end
